theory Spec2Isabelle
  imports Main
begin

section \<open>Python objects of \<^verbatim>\<open>ophyd_async/core/_device.py\<close>\<close>

text \<open>
  Devices are Python objects with identity: a child is held by reference in its parent's
  \<^verbatim>\<open>__dict__\<close>, and holds a reference to its parent. The model is a store from
  addresses to objects. An object has its class, its \<^verbatim>\<open>__dict__\<close> (the instance
  attributes, in insertion order) and, for a \<^verbatim>\<open>DeviceVector\<close>, the dict
  \<^verbatim>\<open>_children\<close>.
\<close>

type_synonym addr = nat

text \<open>
  The values an attribute holds. \<open>VDev a\<close> is a reference to an instance of
  \<^verbatim>\<open>Device\<close> or of a subclass, so \<^verbatim>\<open>isinstance(v, Device)\<close> is
  ``\<open>v\<close> is a \<open>VDev\<close>''. \<open>VTask n\<close> is the \<open>n\<close>-th \<^verbatim>\<open>asyncio.Task\<close> created,
  \<open>VLog s\<close> the \<^verbatim>\<open>LoggerAdapter\<close> made for the device name \<open>s\<close>.
\<close>

datatype pyval =
    VNone
  | VBool bool
  | VInt int
  | VStr string
  | VDev addr
  | VTask nat
  | VLog string

text \<open>
  The keys of \<^verbatim>\<open>_children\<close>: what passes \<^verbatim>\<open>isinstance(key, int)\<close>. In
  Python \<^verbatim>\<open>bool\<close> is a subclass of \<^verbatim>\<open>int\<close>, and \<^verbatim>\<open>True == 1\<close> as a dict key.
\<close>

datatype pykey = KInt int | KBool bool

datatype cls = CDevice | CDeviceVector

record pyobj =
  obj_class :: cls
  obj_dict :: "(string \<times> pyval) list"
  obj_children :: "(pykey \<times> addr) list"

type_synonym heap = "addr \<Rightarrow> pyobj option"

text \<open>
  The exceptions the module raises. A message is kept where the source gives it as a
  literal; the \<^verbatim>\<open>TypeError\<close> of \<^verbatim>\<open>__setattr__\<close> and the assertions format
  their message from the objects involved.
\<close>

datatype error =
    TypeError
  | AttributeError string
  | AssertionError
  | RuntimeError string
  | NotConnected string
  | CancelledError
  | InvalidStateError

text \<open>
  A statement either returns or raises. Python does not undo the writes made before a
  \<^verbatim>\<open>raise\<close>, so every operation returns the store it leaves behind in both cases.
\<close>

datatype outcome = Returned | Raised error

subsection \<open>Dicts\<close>

text \<open>
  \<^verbatim>\<open>d[k] = v\<close> on an insertion-ordered dict: an existing key keeps its place, a new key
  goes to the end.
\<close>

fun dict_set :: "('k \<times> 'v) list \<Rightarrow> 'k \<Rightarrow> 'v \<Rightarrow> ('k \<times> 'v) list" where
  "dict_set [] k v = [(k, v)]"
| "dict_set ((k', v') # d) k v =
     (if k' = k then (k, v) # d else (k', v') # dict_set d k v)"

definition is_Device :: "pyval \<Rightarrow> bool" where
  "is_Device v = (case v of VDev _ \<Rightarrow> True | _ \<Rightarrow> False)"

fun key_value :: "pykey \<Rightarrow> int" where
  "key_value (KInt i) = i"
| "key_value (KBool b) = (if b then 1 else 0)"

text \<open>
  \<^verbatim>\<open>self._children[key] = value\<close>: keys are compared by value (\<^verbatim>\<open>True\<close> and
  \<^verbatim>\<open>1\<close> are one key), and a key already present keeps its own key object.
\<close>

fun item_set :: "(pykey \<times> addr) list \<Rightarrow> pykey \<Rightarrow> addr \<Rightarrow> (pykey \<times> addr) list" where
  "item_set [] k c = [(k, c)]"
| "item_set ((k', c') # d) k c =
     (if key_value k' = key_value k then (k', c) # d else (k', c') # item_set d k c)"

fun item_get :: "(pykey \<times> addr) list \<Rightarrow> pykey \<Rightarrow> addr option" where
  "item_get [] k = None"
| "item_get ((k', c') # d) k = (if key_value k' = key_value k then Some c' else item_get d k)"

subsection \<open>\<^verbatim>\<open>str(key)\<close>\<close>

fun digits :: "nat \<Rightarrow> string" where
  "digits n = (if n < 10 then [''0123456789'' ! n] else digits (n div 10) @ [''0123456789'' ! (n mod 10)])"

definition str_int :: "int \<Rightarrow> string" where
  "str_int i = (if i < 0 then CHR ''-'' # digits (nat (- i)) else digits (nat i))"

fun str_key :: "pykey \<Rightarrow> string" where
  "str_key (KInt i) = str_int i"
| "str_key (KBool b) = (if b then ''True'' else ''False'')"

subsection \<open>Attribute access\<close>

text \<open>
  Reading \<^verbatim>\<open>self.parent\<close>, \<^verbatim>\<open>self._name\<close>, \<^verbatim>\<open>self._connect_task\<close> or
  \<^verbatim>\<open>self._connect_mock_arg\<close> finds the instance attribute if there is one and the
  class attribute (\<^verbatim>\<open>None\<close>, \<^verbatim>\<open>""\<close>, \<^verbatim>\<open>None\<close>, \<^verbatim>\<open>None\<close>) otherwise.
\<close>

definition class_default :: "string \<Rightarrow> pyval" where
  "class_default name = (if name = ''_name'' then VStr [] else VNone)"

definition get_attr :: "heap \<Rightarrow> addr \<Rightarrow> string \<Rightarrow> pyval" where
  "get_attr h a name =
     (case h a of
        None \<Rightarrow> class_default name
      | Some obj \<Rightarrow> (case map_of (obj_dict obj) name of
                      None \<Rightarrow> class_default name
                    | Some v \<Rightarrow> v))"

text \<open>\<^verbatim>\<open>object.__setattr__(self, name, value)\<close>: the plain write into \<^verbatim>\<open>__dict__\<close>.\<close>

definition object_setattr :: "heap \<Rightarrow> addr \<Rightarrow> string \<Rightarrow> pyval \<Rightarrow> heap" where
  "object_setattr h a name v =
     (case h a of
        None \<Rightarrow> h
      | Some obj \<Rightarrow> h(a \<mapsto> obj\<lparr>obj_dict := dict_set (obj_dict obj) name v\<rparr>))"

definition is_vector :: "heap \<Rightarrow> addr \<Rightarrow> bool" where
  "is_vector h a = (case h a of None \<Rightarrow> False | Some obj \<Rightarrow> obj_class obj = CDeviceVector)"

text \<open>The \<^verbatim>\<open>name\<close> property: \<^verbatim>\<open>return self._name\<close>.\<close>

definition Device_name :: "heap \<Rightarrow> addr \<Rightarrow> string" where
  "Device_name h a = (case get_attr h a ''_name'' of VStr s \<Rightarrow> s | _ \<Rightarrow> [])"

subsection \<open>\<^verbatim>\<open>children\<close>\<close>

text \<open>
  \<^verbatim>\<open>Device.children\<close>:
  \<^verbatim>\<open>for attr_name, attr in self.__dict__.items():
    if attr_name != "parent" and isinstance(attr, Device): yield attr_name, attr\<close>
\<close>

fun Device_children_of :: "(string \<times> pyval) list \<Rightarrow> (string \<times> addr) list" where
  "Device_children_of [] = []"
| "Device_children_of ((attr_name, attr) # d) =
     (case attr of
        VDev c \<Rightarrow> (if attr_name \<noteq> ''parent'' then (attr_name, c) # Device_children_of d
                   else Device_children_of d)
      | _ \<Rightarrow> Device_children_of d)"

text \<open>
  \<^verbatim>\<open>DeviceVector.children\<close>:
  \<^verbatim>\<open>for key, child in self._children.items(): yield str(key), child\<close>
\<close>

definition DeviceVector_children_of :: "(pykey \<times> addr) list \<Rightarrow> (string \<times> addr) list" where
  "DeviceVector_children_of d = map (\<lambda>(key, child). (str_key key, child)) d"

text \<open>\<^verbatim>\<open>self.children()\<close>, dispatched on the class of \<open>self\<close>.\<close>

definition children :: "heap \<Rightarrow> addr \<Rightarrow> (string \<times> addr) list" where
  "children h a =
     (case h a of
        None \<Rightarrow> []
      | Some obj \<Rightarrow> (case obj_class obj of
                      CDevice \<Rightarrow> Device_children_of (obj_dict obj)
                    | CDeviceVector \<Rightarrow> DeviceVector_children_of (obj_children obj)))"

subsection \<open>\<^verbatim>\<open>__setattr__\<close>\<close>

text \<open>
  \<^verbatim>\<open>x in (value, None)\<close> compares by identity, then by \<^verbatim>\<open>==\<close>. A
  \<^verbatim>\<open>Device\<close> has the identity comparison of \<^verbatim>\<open>object\<close>; a
  \<^verbatim>\<open>DeviceVector\<close> inherits \<^verbatim>\<open>Mapping.__eq__\<close> from \<^verbatim>\<open>collections.abc\<close>,
  which compares two mappings by their items and answers \<^verbatim>\<open>NotImplemented\<close> for
  anything else. That library function is the parameter \<open>mapping_eq\<close>. Numbers are
  equal when their values are, a \<^verbatim>\<open>bool\<close> counting as 0 or 1. The attribute is
  declared \<^verbatim>\<open>parent: Device | None\<close>, so it is \<^verbatim>\<open>None\<close> and devices that are
  compared here.
\<close>

definition num_value :: "pyval \<Rightarrow> int option" where
  "num_value v =
     (case v of VInt i \<Rightarrow> Some i | VBool b \<Rightarrow> Some (if b then 1 else 0) | _ \<Rightarrow> None)"

definition py_eq :: "(heap \<Rightarrow> addr \<Rightarrow> addr \<Rightarrow> bool) \<Rightarrow> heap \<Rightarrow> pyval \<Rightarrow> pyval \<Rightarrow> bool" where
  "py_eq mapping_eq h x y =
     (x = y \<or>
      (case (x, y) of
         (VDev a, VDev b) \<Rightarrow> is_vector h a \<and> is_vector h b \<and> mapping_eq h a b
       | _ \<Rightarrow> num_value x \<noteq> None \<and> num_value x = num_value y))"

definition py_in :: "(heap \<Rightarrow> addr \<Rightarrow> addr \<Rightarrow> bool) \<Rightarrow> heap \<Rightarrow> pyval \<Rightarrow> pyval list \<Rightarrow> bool" where
  "py_in mapping_eq h x ys = list_ex (py_eq mapping_eq h x) ys"

text \<open>
  The first branch of \<^verbatim>\<open>Device.__setattr__\<close>, taken when the attribute is
  \<^verbatim>\<open>parent\<close>:
  \<^verbatim>\<open>if self.parent not in (value, None): raise TypeError(...)
return super().__setattr__(name, value)\<close>
\<close>

definition Device_setattr_parent ::
  "(heap \<Rightarrow> addr \<Rightarrow> addr \<Rightarrow> bool) \<Rightarrow> heap \<Rightarrow> addr \<Rightarrow> pyval \<Rightarrow> outcome \<times> heap" where
  "Device_setattr_parent mapping_eq h self val =
     (if \<not> py_in mapping_eq h (get_attr h self ''parent'') [val, VNone]
      then (Raised TypeError, h)
      else (Returned, object_setattr h self ''parent'' val))"

text \<open>
  \<^verbatim>\<open>Device.__setattr__(self, name, value)\<close>. In the second branch
  \<^verbatim>\<open>value.parent = self\<close> runs the \<^verbatim>\<open>__setattr__\<close> of \<open>value\<close> with the
  attribute \<^verbatim>\<open>parent\<close>; for a \<^verbatim>\<open>DeviceVector\<close> that is
  \<^verbatim>\<open>DeviceVector.__setattr__\<close>, whose test fails on the name \<^verbatim>\<open>parent\<close> and
  which then calls this one: in both classes the first branch above. The child's
  parent is written before the attribute of \<open>self\<close>, and a \<^verbatim>\<open>TypeError\<close> raised
  there leaves the attribute unwritten.
\<close>

definition Device_setattr ::
  "(heap \<Rightarrow> addr \<Rightarrow> addr \<Rightarrow> bool) \<Rightarrow> heap \<Rightarrow> addr \<Rightarrow> string \<Rightarrow> pyval \<Rightarrow> outcome \<times> heap" where
  "Device_setattr mapping_eq h self attr_name val =
     (if attr_name = ''parent'' then Device_setattr_parent mapping_eq h self val
      else (case val of
              VDev c \<Rightarrow>
                (case Device_setattr_parent mapping_eq h c (VDev self) of
                   (Raised e, h') \<Rightarrow> (Raised e, h')
                 | (Returned, h') \<Rightarrow> (Returned, object_setattr h' self attr_name val))
            | _ \<Rightarrow> (Returned, object_setattr h self attr_name val)))"

text \<open>
  \<^verbatim>\<open>DeviceVector.__setattr__(self, name, child)\<close>:
  \<^verbatim>\<open>if name != "parent" and isinstance(child, Device): raise AttributeError(...)
super().__setattr__(name, child)\<close>
\<close>

definition DeviceVector_setattr ::
  "(heap \<Rightarrow> addr \<Rightarrow> addr \<Rightarrow> bool) \<Rightarrow> heap \<Rightarrow> addr \<Rightarrow> string \<Rightarrow> pyval \<Rightarrow> outcome \<times> heap" where
  "DeviceVector_setattr mapping_eq h self attr_name child =
     (if attr_name \<noteq> ''parent'' \<and> is_Device child
      then (Raised (AttributeError
              ''DeviceVector can only have integer named children, set via device_vector[i] = child''), h)
      else Device_setattr mapping_eq h self attr_name child)"

text \<open>\<^verbatim>\<open>self.<name> = value\<close>, dispatched on the class of \<open>self\<close>.\<close>

definition py_setattr ::
  "(heap \<Rightarrow> addr \<Rightarrow> addr \<Rightarrow> bool) \<Rightarrow> heap \<Rightarrow> addr \<Rightarrow> string \<Rightarrow> pyval \<Rightarrow> outcome \<times> heap" where
  "py_setattr mapping_eq h self attr_name val =
     (if is_vector h self then DeviceVector_setattr mapping_eq h self attr_name val
      else Device_setattr mapping_eq h self attr_name val)"

subsection \<open>\<^verbatim>\<open>DeviceVector.__setitem__\<close>\<close>

text \<open>\<^verbatim>\<open>isinstance(key, int)\<close>, with the key it makes.\<close>

definition as_key :: "pyval \<Rightarrow> pykey option" where
  "as_key v = (case v of VInt i \<Rightarrow> Some (KInt i) | VBool b \<Rightarrow> Some (KBool b) | _ \<Rightarrow> None)"

definition children_setitem :: "heap \<Rightarrow> addr \<Rightarrow> pykey \<Rightarrow> addr \<Rightarrow> heap" where
  "children_setitem h a k c =
     (case h a of
        None \<Rightarrow> h
      | Some obj \<Rightarrow> h(a \<mapsto> obj\<lparr>obj_children := item_set (obj_children obj) k c\<rparr>))"

text \<open>
  \<^verbatim>\<open>assert isinstance(key, int), ...
assert isinstance(value, Device), ...
self._children[key] = value
value.parent = self\<close>

  The assertions are checked, as they are unless Python runs with \<^verbatim>\<open>-O\<close>. The last
  line runs \<^verbatim>\<open>__setattr__\<close> of \<open>value\<close> with the attribute \<^verbatim>\<open>parent\<close>, after
  the entry has been stored.
\<close>

definition DeviceVector_setitem ::
  "(heap \<Rightarrow> addr \<Rightarrow> addr \<Rightarrow> bool) \<Rightarrow> heap \<Rightarrow> addr \<Rightarrow> pyval \<Rightarrow> pyval \<Rightarrow> outcome \<times> heap" where
  "DeviceVector_setitem mapping_eq h self key val =
     (case as_key key of
        None \<Rightarrow> (Raised AssertionError, h)
      | Some k \<Rightarrow>
          (case val of
             VDev c \<Rightarrow> Device_setattr_parent mapping_eq (children_setitem h self k c) c (VDev self)
           | _ \<Rightarrow> (Raised AssertionError, h)))"

text \<open>\<^verbatim>\<open>self._children\<close> of the object at an address.\<close>

definition vector_items :: "heap \<Rightarrow> addr \<Rightarrow> (pykey \<times> addr) list" where
  "vector_items h a = (case h a of None \<Rightarrow> [] | Some obj \<Rightarrow> obj_children obj)"

subsection \<open>\<^verbatim>\<open>Device.set_name\<close>\<close>

text \<open>\<^verbatim>\<open>child_name.strip('_')\<close>: the underscores at both ends are removed.\<close>

definition strip_underscores :: "string \<Rightarrow> string" where
  "strip_underscores s =
     rev (dropWhile (\<lambda>c. c = CHR ''_'') (rev (dropWhile (\<lambda>c. c = CHR ''_'') s)))"

text \<open>
  \<^verbatim>\<open>f"{self.name}-{child_name.strip('_')}" if self.name else ""\<close>
\<close>

definition child_full_name :: "string \<Rightarrow> string \<Rightarrow> string" where
  "child_full_name self_name child_name =
     (if self_name \<noteq> [] then self_name @ ''-'' @ strip_underscores child_name else [])"

text \<open>
  \<^verbatim>\<open>self._name = name
self.log = LoggerAdapter(getLogger("ophyd_async.devices"), {"ophyd_async_device_name": self.name})
for child_name, child in self.children():
    child_name = f"{self.name}-{child_name.strip('_')}" if self.name else ""
    child.set_name(child_name)\<close>

  Both assignments store a value that is not a device under a name that is not
  \<^verbatim>\<open>parent\<close>, so either \<^verbatim>\<open>__setattr__\<close> ends in the plain write (lemma
  \<open>py_setattr_plain\<close> below). The recursion follows references and need not end: on a
  cycle of children Python raises \<^verbatim>\<open>RecursionError\<close>. The first argument is the
  recursion depth still available, and \<open>None\<close> is the call that runs out of it.
\<close>

fun set_name :: "nat \<Rightarrow> heap \<Rightarrow> addr \<Rightarrow> string \<Rightarrow> heap option" where
  "set_name 0 h self new_name = None"
| "set_name (Suc depth) h self new_name =
     (let h1 = object_setattr h self ''_name'' (VStr new_name);
          h2 = object_setattr h1 self ''log'' (VLog (Device_name h1 self))
      in fold (\<lambda>(child_name, child) r.
                 case r of
                   None \<Rightarrow> None
                 | Some h' \<Rightarrow>
                     set_name depth h' child (child_full_name (Device_name h' self) child_name))
           (children h2 self) (Some h2))"

subsection \<open>Mocks and tasks\<close>

text \<open>
  The argument \<^verbatim>\<open>mock: bool | Mock\<close>. The type \<open>'m\<close> stands for the objects of
  \<^verbatim>\<open>unittest.mock.Mock\<close>, which are truthy.
\<close>

datatype 'm mock_arg = MBool bool | MMock 'm

fun truthy :: "'m mock_arg \<Rightarrow> bool" where
  "truthy (MBool b) = b"
| "truthy (MMock m) = True"

text \<open>
  An \<^verbatim>\<open>asyncio.Task\<close> is pending, finished with a result, finished with an exception,
  or cancelled. \<^verbatim>\<open>done()\<close> is true of every task that is not pending;
  \<^verbatim>\<open>exception()\<close> returns the exception or \<^verbatim>\<open>None\<close> of a finished task, and raises
  \<^verbatim>\<open>CancelledError\<close> for a cancelled and \<^verbatim>\<open>InvalidStateError\<close> for a pending one.
\<close>

datatype task_state = Pending | Finished | Failed error | Cancelled

definition task_done :: "task_state \<Rightarrow> bool" where
  "task_done st = (st \<noteq> Pending)"

fun task_exception :: "task_state \<Rightarrow> error + error option" where
  "task_exception Pending = Inl InvalidStateError"
| "task_exception Cancelled = Inl CancelledError"
| "task_exception Finished = Inr None"
| "task_exception (Failed e) = Inr (Some e)"

text \<open>The arguments of one call of \<^verbatim>\<open>connect\<close>, of a device or of its connector.\<close>

record ('m, 't) connect_args =
  ca_device :: addr
  ca_mock :: "'m mock_arg"
  ca_timeout :: 't
  ca_force_reconnect :: bool

text \<open>
  The state \<^verbatim>\<open>Device.connect\<close> works on: the objects, the tasks made by
  \<^verbatim>\<open>asyncio.create_task\<close> (task \<open>n\<close> runs the coroutine \<open>started ! n\<close>, a call of
  \<^verbatim>\<open>self._connector.connect\<close>; \<open>task_state\<close> is what the event loop has made of it so
  far), and the module's dict \<^verbatim>\<open>_device_mocks\<close>.
\<close>

record ('m, 't) world =
  heap :: heap
  started :: "('m, 't) connect_args list"
  task_state :: "nat \<Rightarrow> task_state"
  device_mocks :: "addr \<Rightarrow> 'm mock_arg option"

subsection \<open>\<^verbatim>\<open>Device.connect\<close>\<close>

text \<open>
  \<^verbatim>\<open>can_use_previous_connect = (
    uses_mock is self._connect_mock_arg
    and self._connect_task
    and not (self._connect_task.done() and self._connect_task.exception())
)\<close>
  \<^verbatim>\<open>and\<close> evaluates its right operand only when the left one is truthy. The attribute
  \<^verbatim>\<open>_connect_task\<close> is declared \<^verbatim>\<open>asyncio.Task | None\<close>. \<open>Inl\<close> is the exception
  that \<^verbatim>\<open>exception()\<close> raises.
\<close>

definition can_use_previous_connect :: "('m, 't) world \<Rightarrow> addr \<Rightarrow> bool \<Rightarrow> error + bool" where
  "can_use_previous_connect w self uses_mock =
     (if get_attr (heap w) self ''_connect_mock_arg'' \<noteq> VBool uses_mock then Inr False
      else (case get_attr (heap w) self ''_connect_task'' of
              VTask t \<Rightarrow>
                (if \<not> task_done (task_state w t) then Inr True
                 else (case task_exception (task_state w t) of
                         Inl e \<Rightarrow> Inl e
                       | Inr None \<Rightarrow> Inr True
                       | Inr (Some e) \<Rightarrow> Inr False))
            | _ \<Rightarrow> Inr False))"

text \<open>
  The block under \<^verbatim>\<open>if force_reconnect or not can_use_previous_connect\<close>:
  \<^verbatim>\<open>self._connect_mock_arg = uses_mock
if self._connect_mock_arg:
    _device_mocks[self] = mock
coro = self._connector.connect(
    device=self, mock=mock, timeout=timeout, force_reconnect=force_reconnect)
self._connect_task = asyncio.create_task(coro)\<close>
\<close>

definition start_connect ::
  "('m, 't) world \<Rightarrow> addr \<Rightarrow> bool \<Rightarrow> 'm mock_arg \<Rightarrow> 't \<Rightarrow> bool \<Rightarrow> ('m, 't) world" where
  "start_connect w self uses_mock mock timeout force_reconnect =
     (let w1 = w\<lparr>heap := object_setattr (heap w) self ''_connect_mock_arg'' (VBool uses_mock)\<rparr>;
          w2 = (if get_attr (heap w1) self ''_connect_mock_arg'' = VBool True
                then w1\<lparr>device_mocks := (device_mocks w1)(self \<mapsto> mock)\<rparr> else w1);
          coro = \<lparr>ca_device = self, ca_mock = mock, ca_timeout = timeout,
                  ca_force_reconnect = force_reconnect\<rparr>;
          t = length (started w2);
          w3 = w2\<lparr>started := started w2 @ [coro], task_state := (task_state w2)(t := Pending)\<rparr>
      in w3\<lparr>heap := object_setattr (heap w3) self ''_connect_task'' (VTask t)\<rparr>)"

text \<open>
  \<^verbatim>\<open>Device.connect\<close> up to its last line, \<^verbatim>\<open>await self._connect_task\<close>. The result
  is the task the call then awaits, or the exception raised before it gets there.
  \<open>new_mock\<close> is the object \<^verbatim>\<open>Mock()\<close> makes in this call.
\<close>

definition connect ::
  "'m \<Rightarrow> ('m, 't) world \<Rightarrow> addr \<Rightarrow> 'm mock_arg \<Rightarrow> 't \<Rightarrow> bool \<Rightarrow> (error + nat) \<times> ('m, 't) world" where
  "connect new_mock w self mock timeout force_reconnect =
     (let uses_mock = truthy mock in
      case can_use_previous_connect w self uses_mock of
        Inl e \<Rightarrow> (Inl e, w)
      | Inr can_use \<Rightarrow>
          (let mock' = (if mock = MBool True then MMock new_mock else mock);
               w' = (if force_reconnect \<or> \<not> can_use
                     then start_connect w self uses_mock mock' timeout force_reconnect
                     else w)
           in ((case get_attr (heap w') self ''_connect_task'' of
                  VTask t \<Rightarrow> Inr t
                | _ \<Rightarrow> Inl AssertionError), w')))"

text \<open>
  \<^verbatim>\<open>await task\<close>, once the task is done: its result, its exception, or
  \<^verbatim>\<open>CancelledError\<close>. A pending task keeps the caller waiting.
\<close>

fun await :: "task_state \<Rightarrow> outcome option" where
  "await Pending = None"
| "await Finished = Some Returned"
| "await (Failed e) = Some (Raised e)"
| "await Cancelled = Some (Raised CancelledError)"

subsection \<open>\<^verbatim>\<open>DeviceConnector.connect\<close>\<close>

text \<open>
  \<^verbatim>\<open>coros = {}
for name, child_device in device.children():
    child_mock = getattr(mock, name) if mock else mock  # Mock() or False
    coros[name] = child_device.connect(
        mock=child_mock, timeout=timeout, force_reconnect=force_reconnect)
await wait_for_connection(**coros)\<close>

  Calling the coroutine function \<^verbatim>\<open>child_device.connect\<close> makes a coroutine and runs
  nothing of it; the dict \<open>coros\<close> holds the calls by name. \<^verbatim>\<open>getattr\<close> on a mock is
  \<^verbatim>\<open>unittest.mock\<close>'s, and \<^verbatim>\<open>wait_for_connection\<close> is defined in
  \<^verbatim>\<open>_utils.py\<close>: both are parameters.
\<close>

fun connect_coros ::
  "('m mock_arg \<Rightarrow> string \<Rightarrow> error + 'm mock_arg) \<Rightarrow> 'm mock_arg \<Rightarrow> 't \<Rightarrow> bool \<Rightarrow>
   (string \<times> addr) list \<Rightarrow> (string \<times> ('m, 't) connect_args) list \<Rightarrow>
   error + (string \<times> ('m, 't) connect_args) list" where
  "connect_coros getattr mock timeout force_reconnect [] coros = Inr coros"
| "connect_coros getattr mock timeout force_reconnect ((child_name, child_device) # rest) coros =
     (case (if truthy mock then getattr mock child_name else Inr mock) of
        Inl e \<Rightarrow> Inl e
      | Inr child_mock \<Rightarrow>
          connect_coros getattr mock timeout force_reconnect rest
            (dict_set coros child_name
               \<lparr>ca_device = child_device, ca_mock = child_mock, ca_timeout = timeout,
                ca_force_reconnect = force_reconnect\<rparr>))"

definition DeviceConnector_connect ::
  "('m mock_arg \<Rightarrow> string \<Rightarrow> error + 'm mock_arg) \<Rightarrow>
   ((string \<times> ('m, 't) connect_args) list \<Rightarrow> 'r) \<Rightarrow>
   heap \<Rightarrow> addr \<Rightarrow> 'm mock_arg \<Rightarrow> 't \<Rightarrow> bool \<Rightarrow> error + 'r" where
  "DeviceConnector_connect getattr wait_for_connection h device mock timeout force_reconnect =
     (case connect_coros getattr mock timeout force_reconnect (children h device) [] of
        Inl e \<Rightarrow> Inl e
      | Inr coros \<Rightarrow> Inr (wait_for_connection coros))"

subsection \<open>\<^verbatim>\<open>DeviceCollector.__exit__\<close>\<close>

record ('m, 't) DeviceCollector =
  dc_set_name :: bool
  dc_connect :: bool
  dc_mock :: "'m mock_arg"
  dc_timeout :: 't
  dc_names_on_enter :: "string list"
  dc_objects_on_exit :: "(string \<times> pyval) list"

text \<open>\<^verbatim>\<open>except RuntimeError\<close>\<close>

definition is_RuntimeError :: "error \<Rightarrow> bool" where
  "is_RuntimeError e = (case e of RuntimeError _ \<Rightarrow> True | _ \<Rightarrow> False)"

text \<open>
  \<^verbatim>\<open>if in_bluesky_event_loop():
    raise RuntimeError(...)
self._objects_on_exit = self._caller_locals()
try:
    fut = call_in_bluesky_event_loop(self._on_exit())
except RuntimeError as e:
    raise NotConnected(...) from e
return fut\<close>

  \<^verbatim>\<open>in_bluesky_event_loop\<close> and \<^verbatim>\<open>call_in_bluesky_event_loop\<close> are functions of
  \<^verbatim>\<open>bluesky.run_engine\<close>, and \<^verbatim>\<open>_caller_locals\<close> reads the interpreter's stack: the
  first two parameters are what they answer, the third is the hand-off of the coroutine
  \<^verbatim>\<open>self._on_exit()\<close>, in which all naming and connecting is done, acting on the state
  \<open>'s\<close> of everything outside the collector.
\<close>

definition DeviceCollector_exit ::
  "bool \<Rightarrow> (string \<times> pyval) list \<Rightarrow>
   (('m, 't) DeviceCollector \<Rightarrow> 's \<Rightarrow> (error + 'f) \<times> 's) \<Rightarrow>
   ('m, 't) DeviceCollector \<Rightarrow> 's \<Rightarrow> (error + 'f) \<times> ('m, 't) DeviceCollector \<times> 's" where
  "DeviceCollector_exit in_bluesky_event_loop caller_locals call_in_bluesky_event_loop self s =
     (if in_bluesky_event_loop
      then (Inl (RuntimeError
              (''Cannot use DeviceConnector inside a plan, instead use '' @
               ''`yield from ophyd_async.plan_stubs.ensure_connected(device)`'')), self, s)
      else (let self' = self\<lparr>dc_objects_on_exit := caller_locals\<rparr> in
            case call_in_bluesky_event_loop self' s of
              (Inl e, s') \<Rightarrow>
                (if is_RuntimeError e
                 then (Inl (NotConnected
                         (''Could not connect devices. Is the bluesky event loop running? See '' @
                          ''https://blueskyproject.io/ophyd-async/main/'' @
                          ''user/explanations/event-loop-choice.html for more info.'')), self', s')
                 else (Inl e, self', s'))
            | (Inr fut, s') \<Rightarrow> (Inr fut, self', s')))"

section \<open>What the specification says, and examples\<close>

subsection \<open>The reuse rule of \<^verbatim>\<open>connect\<close>\<close>

text \<open>
  The rule as the specification words it: the requested mode equals the stored one, a
  previous connect task exists, and that task is not both finished and holding an
  exception.
\<close>

definition holds_exception :: "task_state \<Rightarrow> bool" where
  "holds_exception st = (case st of Failed e \<Rightarrow> True | _ \<Rightarrow> False)"

definition reusable :: "('m, 't) world \<Rightarrow> addr \<Rightarrow> bool \<Rightarrow> bool" where
  "reusable w self uses_mock =
     (get_attr (heap w) self ''_connect_mock_arg'' = VBool uses_mock
      \<and> (case get_attr (heap w) self ''_connect_task'' of
            VTask t \<Rightarrow> \<not> (task_done (task_state w t) \<and> holds_exception (task_state w t))
          | _ \<Rightarrow> False))"

text \<open>
  The fan-out a call \<^verbatim>\<open>connect(mock, timeout, force_reconnect)\<close> starts when it starts
  one: the arguments it gives to \<^verbatim>\<open>self._connector.connect\<close>.
\<close>

definition connect_call :: "'m \<Rightarrow> addr \<Rightarrow> 'm mock_arg \<Rightarrow> 't \<Rightarrow> bool \<Rightarrow> ('m, 't) connect_args" where
  "connect_call new_mock self mock timeout force_reconnect =
     \<lparr>ca_device = self, ca_mock = (if mock = MBool True then MMock new_mock else mock),
      ca_timeout = timeout, ca_force_reconnect = force_reconnect\<rparr>"

text \<open>The task a device holds is one of the tasks created so far.\<close>

definition task_known :: "('m, 't) world \<Rightarrow> addr \<Rightarrow> bool" where
  "task_known w self =
     (case get_attr (heap w) self ''_connect_task'' of
        VTask t \<Rightarrow> t < length (started w)
      | _ \<Rightarrow> True)"

subsection \<open>An example store\<close>

definition mk_device :: "(string \<times> pyval) list \<Rightarrow> pyobj" where
  "mk_device attrs = \<lparr>obj_class = CDevice, obj_dict = attrs, obj_children = []\<rparr>"

definition mk_vector :: "(string \<times> pyval) list \<Rightarrow> (pykey \<times> addr) list \<Rightarrow> pyobj" where
  "mk_vector attrs items = \<lparr>obj_class = CDeviceVector, obj_dict = attrs, obj_children = items\<rparr>"

text \<open>
  Device 0 has the children \<^verbatim>\<open>a\<close>, \<^verbatim>\<open>_b_\<close> and \<^verbatim>\<open>c\<close>; \<^verbatim>\<open>c\<close> is a
  \<^verbatim>\<open>DeviceVector\<close> with the children 0 and 1. Devices 6 and 7 have no parent and no
  children. No device has been named or connected.
\<close>

definition ex_heap :: heap where
  "ex_heap =
     [0 \<mapsto> mk_device [(''_name'', VStr ''''), (''log'', VLog ''''),
                    (''a'', VDev 1), (''_b_'', VDev 2), (''c'', VDev 3)],
      1 \<mapsto> mk_device [(''_name'', VStr ''''), (''log'', VLog ''''), (''parent'', VDev 0)],
      2 \<mapsto> mk_device [(''_name'', VStr ''''), (''log'', VLog ''''), (''parent'', VDev 0)],
      3 \<mapsto> mk_vector [(''_name'', VStr ''''), (''log'', VLog ''''), (''parent'', VDev 0)]
             [(KInt 0, 4), (KInt 1, 5)],
      4 \<mapsto> mk_device [(''_name'', VStr ''''), (''log'', VLog ''''), (''parent'', VDev 3)],
      5 \<mapsto> mk_device [(''_name'', VStr ''''), (''log'', VLog ''''), (''parent'', VDev 3)],
      6 \<mapsto> mk_device [(''_name'', VStr ''''), (''log'', VLog '''')],
      7 \<mapsto> mk_device [(''_name'', VStr ''''), (''log'', VLog '''')]]"

text \<open>Mocks and timeouts are numbers in the examples.\<close>

definition ex_world :: "(nat, nat) world" where
  "ex_world = \<lparr>heap = ex_heap, started = [], task_state = (\<lambda>t. Pending),
               device_mocks = (\<lambda>a. None)\<rparr>"

text \<open>Device 6 after \<^verbatim>\<open>connect(mock=False, timeout=10)\<close>.\<close>

definition ex_world1 :: "(nat, nat) world" where
  "ex_world1 = snd (connect 0 ex_world 6 (MBool False) 10 False)"

subsection \<open>Trees of devices\<close>

text \<open>
  A tree of devices laid over the store: every node is the address of a device, with
  the name under which its parent yields it from \<^verbatim>\<open>children()\<close> (the attribute name,
  or \<^verbatim>\<open>str(key)\<close> in a \<^verbatim>\<open>DeviceVector\<close>; unused at the root) and the subtrees of
  its own children, in the order of \<^verbatim>\<open>children()\<close>.
\<close>

datatype dtree = DNode (addr_of: addr) (field_of: string) (kids: "dtree list")

fun addrs :: "dtree \<Rightarrow> addr list" where
  "addrs (DNode a f ks) = a # concat (map addrs ks)"

fun tree_depth :: "dtree \<Rightarrow> nat" where
  "tree_depth (DNode a f ks) = Suc (fold max (map tree_depth ks) 0)"

text \<open>
  A device whose attributes \<^verbatim>\<open>_name\<close> and \<^verbatim>\<open>log\<close> hold no device: they hold
  the name and the logger adapter once \<^verbatim>\<open>Device.__init__\<close> has called
  \<^verbatim>\<open>set_name\<close>, and are not set before.
\<close>

definition initialised :: "heap \<Rightarrow> addr \<Rightarrow> bool" where
  "initialised h a =
     (h a \<noteq> None \<and> \<not> is_Device (get_attr h a ''_name'') \<and> \<not> is_Device (get_attr h a ''log''))"

text \<open>
  The store holds the tree \<open>t\<close>: the children of every node are exactly its subtrees.
  With \<open>distinct (addrs t)\<close> no device occurs twice, so \<open>t\<close> is a tree and not a
  graph with shared or cyclic references.
\<close>

fun device_tree :: "heap \<Rightarrow> dtree \<Rightarrow> bool" where
  "device_tree h (DNode a f ks) =
     (initialised h a
      \<and> children h a = map (\<lambda>k. (field_of k, addr_of k)) ks
      \<and> (\<forall>k \<in> set ks. device_tree h k))"

text \<open>Every node with the names on the path from the root to it.\<close>

fun paths :: "dtree \<Rightarrow> (addr \<times> string list) list" where
  "paths (DNode a f ks) =
     (a, []) # concat (map (\<lambda>k. map (\<lambda>(d, p). (d, field_of k # p)) (paths k)) ks)"

text \<open>
  The name of a descendant as the code makes it: \<open>X\<close>, then for every name on the path a
  \<^verbatim>\<open>-\<close> and the name without the underscores at its two ends; the empty name for
  the empty \<open>X\<close>.
\<close>

definition path_name :: "string \<Rightarrow> string list \<Rightarrow> string" where
  "path_name X p =
     (if X = [] then [] else X @ concat (map (\<lambda>f. ''-'' @ strip_underscores f) p))"

text \<open>
  The name as the specification words it, with only the leading underscores of every
  name removed.
\<close>

definition spec_path_name :: "string \<Rightarrow> string list \<Rightarrow> string" where
  "spec_path_name X p =
     (if X = [] then [] else X @ concat (map (\<lambda>f. ''-'' @ dropWhile (\<lambda>c. c = CHR ''_'') f) p))"

text \<open>
  What \<^verbatim>\<open>set_name\<close> may change in the devices of \<open>S\<close>, and nowhere else: no device
  appears or disappears, none gains or loses a child, and \<^verbatim>\<open>_name\<close> and
  \<^verbatim>\<open>log\<close> still hold no device.
\<close>

definition renamed :: "addr set \<Rightarrow> heap \<Rightarrow> heap \<Rightarrow> bool" where
  "renamed S h h' =
     (\<forall>b. (b \<notin> S \<longrightarrow> h' b = h b) \<and> children h' b = children h b
          \<and> (initialised h b \<longrightarrow> initialised h' b))"

text \<open>The names in the subtree \<open>t\<close> after its root was given the name \<open>nm\<close>.\<close>

definition names_set :: "dtree \<Rightarrow> string \<Rightarrow> heap \<Rightarrow> bool" where
  "names_set t nm h = (\<forall>(d, p) \<in> set (paths t). Device_name h d = foldl child_full_name nm p)"

text \<open>The tree of device 0 in the example store.\<close>

definition ex_tree :: dtree where
  "ex_tree = DNode 0 [] [DNode 1 ''a'' [], DNode 2 ''_b_'' [],
                          DNode 3 ''c'' [DNode 4 ''0'' [], DNode 5 ''1'' []]]"

text \<open>A collector with its defaults, before the scope is entered.\<close>

definition ex_collector :: "(nat, nat) DeviceCollector" where
  "ex_collector = \<lparr>dc_set_name = True, dc_connect = True, dc_mock = MBool False, dc_timeout = 10,
                   dc_names_on_enter = [], dc_objects_on_exit = []\<rparr>"

section \<open>Properties\<close>

subsection \<open>Dicts and attributes\<close>

lemma map_of_dict_set: "map_of (dict_set d k v) k' = (if k' = k then Some v else map_of d k')"
  by (induction d) auto

lemma object_setattr_eq_None [simp]: "object_setattr h a n v b = None \<longleftrightarrow> h b = None"
  by (auto simp: object_setattr_def split: option.splits)

lemma get_attr_object_setattr:
  "get_attr (object_setattr h a n v) b m =
     (if b = a \<and> m = n \<and> h a \<noteq> None then v else get_attr h b m)"
  by (auto simp: get_attr_def object_setattr_def map_of_dict_set split: option.splits)

text \<open>
  An assignment of a value that is not a device, to an attribute other than
  \<^verbatim>\<open>parent\<close>, is the plain write in both classes.
\<close>

lemma py_setattr_plain:
  "attr_name \<noteq> ''parent'' \<Longrightarrow> \<not> is_Device v \<Longrightarrow>
   py_setattr mapping_eq h self attr_name v = (Returned, object_setattr h self attr_name v)"
  by (cases v)
    (simp_all add: py_setattr_def DeviceVector_setattr_def Device_setattr_def is_Device_def)

lemma Device_children_of_dict_set_parent:
  "Device_children_of (dict_set d ''parent'' v) = Device_children_of d"
  by (induction d) (auto split: pyval.splits)

lemma children_object_setattr_parent:
  "children (object_setattr h a ''parent'' v) b = children h b"
  by (auto simp: children_def object_setattr_def Device_children_of_dict_set_parent
      split: option.splits cls.splits)

lemma Device_children_of_mem:
  "(n, c) \<in> set (Device_children_of d) \<longleftrightarrow> (n, VDev c) \<in> set d \<and> n \<noteq> ''parent''"
  by (induction d) (auto split: pyval.splits if_splits)

lemma item_get_item_set: "item_get (item_set d k c) k = Some c"
  by (induction d) auto

lemma vector_items_object_setattr [simp]:
  "vector_items (object_setattr h a n v) b = vector_items h b"
  by (auto simp: vector_items_def object_setattr_def split: option.splits)

lemma get_attr_children_setitem [simp]:
  "get_attr (children_setitem h a k c) b n = get_attr h b n"
  by (auto simp: get_attr_def children_setitem_def split: option.splits)

lemma children_setitem_eq_None [simp]: "children_setitem h a k c b = None \<longleftrightarrow> h b = None"
  by (auto simp: children_setitem_def split: option.splits)

lemma is_vector_children_setitem [simp]:
  "is_vector (children_setitem h a k c) b = is_vector h b"
  by (auto simp: is_vector_def children_setitem_def split: option.splits)

lemma vector_items_children_setitem:
  "h a \<noteq> None \<Longrightarrow> vector_items (children_setitem h a k c) a = item_set (vector_items h a) k c"
  by (auto simp: vector_items_def children_setitem_def split: option.splits)

subsection \<open>Naming a tree\<close>

lemma renamed_refl: "renamed S h h"
  by (simp add: renamed_def)

lemma renamed_trans: "renamed S h h' \<Longrightarrow> renamed S' h' h'' \<Longrightarrow> renamed (S \<union> S') h h''"
  by (auto simp: renamed_def)

lemma device_tree_renamed: "device_tree h t \<Longrightarrow> renamed S h h' \<Longrightarrow> device_tree h' t"
  by (induction t) (auto simp: renamed_def)

lemma Device_name_outside:
  "renamed S h h' \<Longrightarrow> b \<notin> S \<Longrightarrow> Device_name h' b = Device_name h b"
  by (simp add: renamed_def Device_name_def get_attr_def)

lemma Device_children_of_dict_set:
  "\<not> is_Device v \<Longrightarrow> (case map_of d k of Some u \<Rightarrow> \<not> is_Device u | None \<Rightarrow> True) \<Longrightarrow>
   Device_children_of (dict_set d k v) = Device_children_of d"
  by (induction d) (auto simp: is_Device_def split: pyval.splits)

lemma children_object_setattr:
  "\<not> is_Device v \<Longrightarrow> \<not> is_Device (get_attr h a k) \<Longrightarrow>
   children (object_setattr h a k v) b = children h b"
  by (auto simp: children_def object_setattr_def get_attr_def Device_children_of_dict_set
      split: option.splits cls.splits)

lemma fst_paths: "fst ` set (paths t) = set (addrs t)"
  by (induction t) (auto simp: image_iff, force+)

lemma names_set_outside:
  "names_set t nm h \<Longrightarrow> renamed S h h' \<Longrightarrow> S \<inter> set (addrs t) = {} \<Longrightarrow> names_set t nm h'"
proof -
  assume a: "names_set t nm h" "renamed S h h'" "S \<inter> set (addrs t) = {}"
  have "Device_name h' d = Device_name h d" if "(d, p) \<in> set (paths t)" for d p
  proof -
    from that have "d \<in> set (addrs t)" using fst_paths [of t] by force
    with a(3) have "d \<notin> S" by auto
    with a(2) show ?thesis by (rule Device_name_outside)
  qed
  with a(1) show ?thesis by (auto simp: names_set_def)
qed

lemma set_own_name:
  assumes "initialised h a"
  shows "renamed {a} h (object_setattr (object_setattr h a ''_name'' (VStr nm)) a ''log'' (VLog s))"
    and "Device_name (object_setattr (object_setattr h a ''_name'' (VStr nm)) a ''log'' (VLog s)) a = nm"
proof -
  let ?h1 = "object_setattr h a ''_name'' (VStr nm)"
  let ?h2 = "object_setattr ?h1 a ''log'' (VLog s)"
  from assms have ex: "h a \<noteq> None" and n: "\<not> is_Device (get_attr h a ''_name'')"
    and l: "\<not> is_Device (get_attr h a ''log'')"
    by (simp_all add: initialised_def)
  have l1: "\<not> is_Device (get_attr ?h1 a ''log'')"
    using l by (simp add: get_attr_object_setattr)
  have c: "children ?h2 b = children h b" for b
    using n l1 by (simp add: children_object_setattr is_Device_def)
  have o: "?h2 b = h b" if "b \<noteq> a" for b
    using that by (simp add: object_setattr_def split: option.splits)
  have i: "initialised ?h2 b" if "initialised h b" for b
    using that by (auto simp: initialised_def get_attr_object_setattr is_Device_def)
  show "renamed {a} h ?h2"
    using c o i by (simp add: renamed_def)
  show "Device_name ?h2 a = nm"
    using ex by (simp add: Device_name_def get_attr_object_setattr)
qed

lemma fold_children:
  assumes IH: "\<And>k g nm. k \<in> set js \<Longrightarrow> device_tree g k \<Longrightarrow>
      \<exists>g'. set_name d g (addr_of k) nm = Some g' \<and> renamed (set (addrs k)) g g' \<and> names_set k nm g'"
    and "\<forall>k \<in> set js. device_tree g k"
    and "distinct (concat (map addrs js))"
    and "a \<notin> set (concat (map addrs js))"
  shows "\<exists>g'. fold (\<lambda>(child_name, child) r.
                 case r of
                   None \<Rightarrow> None
                 | Some h' \<Rightarrow>
                     set_name d h' child (child_full_name (Device_name h' a) child_name))
               (map (\<lambda>k. (field_of k, addr_of k)) js) (Some g) = Some g'
        \<and> renamed (set (concat (map addrs js))) g g'
        \<and> (\<forall>k \<in> set js. names_set k (child_full_name (Device_name g a) (field_of k)) g')"
  using assms
proof (induction js arbitrary: g)
  case Nil
  then show ?case by (simp add: renamed_refl)
next
  case (Cons k js)
  let ?nm = "child_full_name (Device_name g a) (field_of k)"
  have tk: "device_tree g k" using Cons.prems(2) by simp
  from Cons.prems(1) [of k g ?nm] tk obtain g1 where
    g1: "set_name d g (addr_of k) ?nm = Some g1" "renamed (set (addrs k)) g g1" "names_set k ?nm g1"
    by auto
  have ih1: "\<And>k' g nm. k' \<in> set js \<Longrightarrow> device_tree g k' \<Longrightarrow>
      \<exists>g'. set_name d g (addr_of k') nm = Some g' \<and> renamed (set (addrs k')) g g' \<and> names_set k' nm g'"
    using Cons.prems(1) by simp
  have t1: "\<forall>k' \<in> set js. device_tree g1 k'"
    using Cons.prems(2) g1(2) by (auto intro: device_tree_renamed)
  have d1: "distinct (concat (map addrs js))" using Cons.prems(3) by simp
  have a1: "a \<notin> set (concat (map addrs js))" using Cons.prems(4) by simp
  have ak: "a \<notin> set (addrs k)" using Cons.prems(4) by simp
  have disj: "set (addrs k) \<inter> set (concat (map addrs js)) = {}"
    using Cons.prems(3) by auto
  from Cons.IH [OF ih1 t1 d1 a1] obtain g' where
    g': "fold (\<lambda>(child_name, child) r.
                 case r of
                   None \<Rightarrow> None
                 | Some h' \<Rightarrow>
                     set_name d h' child (child_full_name (Device_name h' a) child_name))
               (map (\<lambda>k. (field_of k, addr_of k)) js) (Some g1) = Some g'"
      "renamed (set (concat (map addrs js))) g1 g'"
      "\<forall>k' \<in> set js. names_set k' (child_full_name (Device_name g1 a) (field_of k')) g'"
    by blast
  have na: "Device_name g1 a = Device_name g a"
    using g1(2) ak by (rule Device_name_outside)
  have nk: "names_set k ?nm g'"
    using g1(3) g'(2) disj by (rule names_set_outside [OF _ _ Int_commute [THEN trans]])
  have r: "renamed (set (concat (map addrs (k # js)))) g g'"
    using renamed_trans [OF g1(2) g'(2)] by simp
  show ?case
    using g1(1) g'(1) g'(3) na nk r by auto
qed

lemma fold_max_ge: "m \<le> fold max xs (m::nat)"
  by (induction xs arbitrary: m) (auto intro: order_trans [OF max.cobounded2])

lemma fold_max_mem: "x \<in> set xs \<Longrightarrow> x \<le> fold max xs (m::nat)"
proof (induction xs arbitrary: m)
  case Nil
  then show ?case by simp
next
  case (Cons y xs)
  show ?case
  proof (cases "x = y")
    case True
    have "y \<le> max y m" by simp
    also have "\<dots> \<le> fold max xs (max y m)" by (rule fold_max_ge)
    finally show ?thesis using True by simp
  next
    case False
    with Cons show ?thesis by simp
  qed
qed

lemma tree_depth_kid: "k \<in> set ks \<Longrightarrow> tree_depth k \<le> fold max (map tree_depth ks) 0"
  by (rule fold_max_mem) simp

lemma set_name_tree:
  "device_tree h t \<Longrightarrow> distinct (addrs t) \<Longrightarrow> tree_depth t \<le> depth \<Longrightarrow>
   \<exists>h'. set_name depth h (addr_of t) nm = Some h' \<and> renamed (set (addrs t)) h h' \<and> names_set t nm h'"
proof (induction t arbitrary: h depth nm)
  case (DNode a f ks)
  from DNode.prems(3) obtain d where depth: "depth = Suc d" and dk: "fold max (map tree_depth ks) 0 \<le> d"
    by (cases depth) auto
  let ?h1 = "object_setattr h a ''_name'' (VStr nm)"
  let ?h2 = "object_setattr ?h1 a ''log'' (VLog (Device_name ?h1 a))"
  have init: "initialised h a" and ch: "children h a = map (\<lambda>k. (field_of k, addr_of k)) ks"
    and sub: "\<forall>k \<in> set ks. device_tree h k"
    using DNode.prems(1) by simp_all
  note own = set_own_name [OF init, of nm "Device_name ?h1 a"]
  have ch2: "children ?h2 a = map (\<lambda>k. (field_of k, addr_of k)) ks"
    using own(1) ch by (simp add: renamed_def)
  have sub2: "\<forall>k \<in> set ks. device_tree ?h2 k"
    using sub own(1) by (auto intro: device_tree_renamed)
  have dist: "distinct (concat (map addrs ks))" and anot: "a \<notin> set (concat (map addrs ks))"
    using DNode.prems(2) by simp_all
  have IH: "\<exists>g'. set_name d g (addr_of k) nm' = Some g' \<and> renamed (set (addrs k)) g g'
       \<and> names_set k nm' g'"
    if "k \<in> set ks" "device_tree g k" for k g nm'
  proof -
    have "distinct (addrs k)" using dist that(1) by (simp add: distinct_concat_iff)
    moreover have "tree_depth k \<le> d" using tree_depth_kid [OF that(1)] dk by simp
    ultimately show ?thesis using DNode.IH [OF that(1) that(2)] by blast
  qed
  from fold_children [where js = ks and d = d and a = a and g = "?h2", OF IH sub2 dist anot]
  obtain g' where
    g': "fold (\<lambda>(child_name, child) r.
                 case r of
                   None \<Rightarrow> None
                 | Some h' \<Rightarrow>
                     set_name d h' child (child_full_name (Device_name h' a) child_name))
               (map (\<lambda>k. (field_of k, addr_of k)) ks) (Some ?h2) = Some g'"
      "renamed (set (concat (map addrs ks))) ?h2 g'"
      "\<forall>k \<in> set ks. names_set k (child_full_name (Device_name ?h2 a) (field_of k)) g'"
    by blast
  have run: "set_name depth h a nm = Some g'"
    using g'(1) ch2 by (simp add: depth Let_def)
  have ren: "renamed (set (addrs (DNode a f ks))) h g'"
    using renamed_trans [OF own(1) g'(2)] by simp
  have name_a: "Device_name g' a = nm"
    using Device_name_outside [OF g'(2) anot] own(2) by simp
  have kid_names: "Device_name g' e = foldl child_full_name nm (field_of k # q)"
    if "k \<in> set ks" "(e, q) \<in> set (paths k)" for k e q
  proof -
    from g'(3) that(1) have "names_set k (child_full_name nm (field_of k)) g'"
      using own(2) by simp
    with that(2) show ?thesis by (auto simp: names_set_def)
  qed
  have names: "names_set (DNode a f ks) nm g'"
    unfolding names_set_def
  proof (intro ballI, clarify)
    fix e q assume "(e, q) \<in> set (paths (DNode a f ks))"
    then consider "e = a" "q = []"
      | k q' where "k \<in> set ks" "(e, q') \<in> set (paths k)" "q = field_of k # q'"
      by auto
    then show "Device_name g' e = foldl child_full_name nm q"
    proof cases
      case 1
      then show ?thesis using name_a by simp
    next
      case 2
      then show ?thesis using kid_names by simp
    qed
  qed
  show ?case using run ren names by simp
qed

lemma foldl_child_full_name: "foldl child_full_name X p = path_name X p"
proof (induction p rule: rev_induct)
  case Nil
  then show ?case by (simp add: path_name_def)
next
  case (snoc f p)
  then show ?case by (simp add: path_name_def child_full_name_def)
qed

subsection \<open>\<^verbatim>\<open>connect\<close>\<close>

lemma started_start_connect:
  "started (start_connect w self um m t f) =
     started w @ [\<lparr>ca_device = self, ca_mock = m, ca_timeout = t, ca_force_reconnect = f\<rparr>]"
  by (simp add: start_connect_def Let_def)

lemma task_start_connect:
  "heap w self \<noteq> None \<Longrightarrow>
   get_attr (heap (start_connect w self um m t f)) self ''_connect_task'' = VTask (length (started w))"
  by (auto simp add: start_connect_def Let_def get_attr_object_setattr)

lemma heap_start_connect [simp]:
  "heap (start_connect w self um m t f) a = None \<longleftrightarrow> heap w a = None"
  by (simp add: start_connect_def Let_def)

lemma heap_start_connect_Some [simp]:
  "(\<exists>y. heap (start_connect w self um m t f) a = Some y) \<longleftrightarrow> (\<exists>y. heap w a = Some y)"
  using heap_start_connect [of w self um m t f a] by (metis not_Some_eq)

lemma mode_start_connect:
  "heap w self \<noteq> None \<Longrightarrow>
   get_attr (heap (start_connect w self um m t f)) self ''_connect_mock_arg'' = VBool um"
  by (auto simp add: start_connect_def Let_def get_attr_object_setattr)

lemma can_use_cases:
  "can_use_previous_connect w self um =
     (if get_attr (heap w) self ''_connect_mock_arg'' = VBool um
         \<and> (\<exists>t. get_attr (heap w) self ''_connect_task'' = VTask t \<and> task_state w t = Cancelled)
      then Inl CancelledError else Inr (reusable w self um))"
  by (auto simp: can_use_previous_connect_def reusable_def task_done_def holds_exception_def
      split: pyval.splits task_state.splits)

lemma connect_reuse:
  "reusable w self (truthy mock) \<Longrightarrow> get_attr (heap w) self ''_connect_task'' = VTask t \<Longrightarrow>
   task_state w t \<noteq> Cancelled \<Longrightarrow>
   connect nm w self mock timeout False = (Inr t, w)"
  by (auto simp: connect_def can_use_cases Let_def)

lemma connect_start:
  "heap w self \<noteq> None \<Longrightarrow> force \<or> \<not> reusable w self (truthy mock) \<Longrightarrow>
   can_use_previous_connect w self (truthy mock) \<noteq> Inl CancelledError \<Longrightarrow>
   connect nm w self mock timeout force =
     (Inr (length (started w)),
      start_connect w self (truthy mock) (if mock = MBool True then MMock nm else mock) timeout force)"
  by (auto simp: connect_def can_use_cases Let_def task_start_connect split: if_splits)

lemma connect_post:
  assumes "heap w self \<noteq> None" and "connect nm w self mock timeout force = (Inr t, w')"
  shows "get_attr (heap w') self ''_connect_task'' = VTask t
       \<and> get_attr (heap w') self ''_connect_mock_arg'' = VBool (truthy mock)
       \<and> heap w' self \<noteq> None"
proof (cases "can_use_previous_connect w self (truthy mock)")
  case (Inl e)
  with assms(2) show ?thesis by (simp add: connect_def)
next
  case (Inr b)
  show ?thesis
  proof (cases "force \<or> \<not> b")
    case True
    with Inr assms show ?thesis
      by (auto simp: connect_def task_start_connect mode_start_connect)
  next
    case False
    with Inr have r: "reusable w self (truthy mock)"
      by (simp add: can_use_cases split: if_splits)
    from False Inr assms show ?thesis
      using r by (auto simp: connect_def reusable_def split: pyval.splits)
  qed
qed

lemma snd_connect:
  "snd (connect nm w self mock timeout force) =
     (case can_use_previous_connect w self (truthy mock) of
        Inl e \<Rightarrow> w
      | Inr can_use \<Rightarrow>
          if force \<or> \<not> can_use
          then start_connect w self (truthy mock) (if mock = MBool True then MMock nm else mock)
                 timeout force
          else w)"
  by (simp add: connect_def Let_def split: sum.splits)

lemma can_use_Inl:
  "can_use_previous_connect w self um = Inl x \<Longrightarrow> x = CancelledError \<and> reusable w self um"
  by (auto simp: can_use_cases reusable_def task_done_def holds_exception_def split: if_splits)

lemma can_use_Inr:
  "can_use_previous_connect w self um = Inr b \<Longrightarrow> b = reusable w self um"
  by (simp add: can_use_cases split: if_splits)

lemma started_connect_no_force:
  "started (snd (connect nm w self mock timeout False)) =
     (if reusable w self (truthy mock) then started w
      else started w @ [connect_call nm self mock timeout False])"
proof (cases "can_use_previous_connect w self (truthy mock)")
  case (Inl x)
  with can_use_Inl [OF Inl] show ?thesis by (simp add: snd_connect)
next
  case (Inr b)
  with can_use_Inr [OF Inr] show ?thesis
    by (simp add: snd_connect started_start_connect connect_call_def)
qed

text \<open>
  A cancelled task is done, and \<^verbatim>\<open>exception()\<close> raises for it: when the mode is
  the stored one, \<^verbatim>\<open>connect\<close> raises \<^verbatim>\<open>CancelledError\<close> while it works out
  \<^verbatim>\<open>can_use_previous_connect\<close>, before it looks at \<^verbatim>\<open>force_reconnect\<close>, and
  starts nothing. Awaiting the cancelled task would raise the same exception.
\<close>

lemma connect_cancelled:
  "get_attr (heap w) self ''_connect_mock_arg'' = VBool (truthy mock) \<Longrightarrow>
   get_attr (heap w) self ''_connect_task'' = VTask t \<Longrightarrow> task_state w t = Cancelled \<Longrightarrow>
   connect nm w self mock timeout force_reconnect = (Inl CancelledError, w)
   \<and> await (task_state w t) = Some (Raised CancelledError)"
  by (simp add: connect_def can_use_previous_connect_def task_done_def)

text \<open>
  Two calls in one mode, then a forced one. After a first \<^verbatim>\<open>connect\<close> that got as
  far as awaiting the task \<open>tk\<close>, a second call in the same mode without
  \<^verbatim>\<open>force_reconnect\<close> awaits \<open>tk\<close> again and changes nothing, as long as \<open>tk\<close> is
  pending or has finished with a result. A later call with \<^verbatim>\<open>force_reconnect=True\<close>
  starts a new fan-out whenever \<open>tk\<close> has not been cancelled, or the mode is the other
  one. Between the calls the event loop may change the states of the tasks (\<open>ts\<close>,
  \<open>ts'\<close>).
\<close>

lemma connect_twice_then_force_unless_cancelled:
  assumes "heap w0 self \<noteq> None"
    and "connect nm1 w0 self m1 t1 f1 = (Inr tk, w1)"
    and "ts tk = Pending \<or> ts tk = Finished"
    and "truthy m2 = truthy m1"
    and "ts' tk \<noteq> Cancelled \<or> truthy m3 \<noteq> truthy m1"
  shows "connect nm2 (w1\<lparr>task_state := ts\<rparr>) self m2 t2 False = (Inr tk, w1\<lparr>task_state := ts\<rparr>)
       \<and> (get_attr (heap w0) self ''_connect_task'' = VNone \<longrightarrow>
            started w1 = started w0 @ [connect_call nm1 self m1 t1 f1])
       \<and> fst (connect nm3 (w1\<lparr>task_state := ts'\<rparr>) self m3 t3 True) = Inr (length (started w1))
       \<and> started (snd (connect nm3 (w1\<lparr>task_state := ts'\<rparr>) self m3 t3 True)) =
            started w1 @ [connect_call nm3 self m3 t3 True]"
proof -
  note post = connect_post [OF assms(1,2)]
  let ?w = "w1\<lparr>task_state := ts\<rparr>"
  have r: "reusable ?w self (truthy m2)"
    using post assms(3,4) by (auto simp: reusable_def task_done_def holds_exception_def)
  have 1: "connect nm2 ?w self m2 t2 False = (Inr tk, ?w)"
    using connect_reuse [OF r, of tk nm2 t2] post assms(3) by auto
  have 2: "get_attr (heap w0) self ''_connect_task'' = VNone \<longrightarrow>
            started w1 = started w0 @ [connect_call nm1 self m1 t1 f1]"
  proof
    assume n: "get_attr (heap w0) self ''_connect_task'' = VNone"
    then have "can_use_previous_connect w0 self (truthy m1) = Inr False"
      by (simp add: can_use_previous_connect_def)
    with assms(2) show "started w1 = started w0 @ [connect_call nm1 self m1 t1 f1]"
      by (auto simp: connect_def Let_def started_start_connect connect_call_def
          split: pyval.splits if_splits)
  qed
  let ?w' = "w1\<lparr>task_state := ts'\<rparr>"
  have h': "heap ?w' self \<noteq> None" using post by simp
  have nc: "can_use_previous_connect ?w' self (truthy m3) \<noteq> Inl CancelledError"
    using post assms(5) by (auto simp: can_use_cases)
  have 3: "connect nm3 ?w' self m3 t3 True =
     (Inr (length (started ?w')),
      start_connect ?w' self (truthy m3) (if m3 = MBool True then MMock nm3 else m3) t3 True)"
    using connect_start [OF h' _ nc, of True nm3 t3] by simp
  show ?thesis using 1 2 3 by (simp add: started_start_connect connect_call_def)
qed

subsection \<open>The fan-out\<close>

text \<open>
  The keys of a Python dict are distinct; \<^verbatim>\<open>d[k] = v\<close> keeps them so, and the names
  that \<^verbatim>\<open>Device.children\<close> yields from such a \<^verbatim>\<open>__dict__\<close> are distinct.
\<close>

lemma dict_set_keys: "fst ` set (dict_set d k v) = insert k (fst ` set d)"
  by (induction d) force+

lemma dict_set_keys_distinct: "distinct (map fst d) \<Longrightarrow> distinct (map fst (dict_set d k v))"
proof (induction d)
  case Nil
  then show ?case by simp
next
  case (Cons x d)
  obtain n u where x: "x = (n, u)" by (cases x)
  from Cons.prems x have n: "n \<notin> fst ` set d" and d: "distinct (map fst d)" by auto
  show ?case
  proof (cases "n = k")
    case True
    with n d show ?thesis by (simp add: x)
  next
    case False
    with n have "n \<notin> fst ` set (dict_set d k v)" by (simp add: dict_set_keys)
    with False Cons.IH [OF d] show ?thesis by (simp add: x)
  qed
qed

lemma Device_children_of_names: "n \<in> fst ` set (Device_children_of d) \<Longrightarrow> n \<in> fst ` set d"
  by (force simp: Device_children_of_mem)

lemma Device_children_of_distinct:
  "distinct (map fst d) \<Longrightarrow> distinct (map fst (Device_children_of d))"
proof (induction d)
  case Nil
  then show ?case by simp
next
  case (Cons x d)
  obtain n v where x: "x = (n, v)" by (cases x)
  from Cons.prems x have "n \<notin> fst ` set d" and "distinct (map fst d)" by auto
  with Cons.IH Device_children_of_names [of n d] show ?case
    by (auto simp: x split: pyval.splits)
qed

lemma children_names_distinct:
  "h a = Some obj \<Longrightarrow> obj_class obj = CDevice \<Longrightarrow> distinct (map fst (obj_dict obj)) \<Longrightarrow>
   distinct (map fst (children h a))"
  by (simp add: children_def Device_children_of_distinct)

lemma dict_set_fresh: "k \<notin> fst ` set d \<Longrightarrow> dict_set d k v = d @ [(k, v)]"
  by (induction d) auto

lemma falsy_mock: "\<not> truthy mock \<Longrightarrow> mock = MBool False"
  by (cases mock) auto

lemma connect_coros_distinct:
  assumes "distinct (map fst cs)"
    and "fst ` set cs \<inter> fst ` set coros = {}"
    and "\<forall>n c. (n, c) \<in> set cs \<and> truthy mock \<longrightarrow> getattr mock n = Inr (sub n)"
  shows "connect_coros getattr mock timeout force cs coros =
     Inr (coros @ map (\<lambda>(n, c). (n, \<lparr>ca_device = c,
                ca_mock = (if truthy mock then sub n else MBool False),
                ca_timeout = timeout, ca_force_reconnect = force\<rparr>)) cs)"
  using assms
proof (induction cs arbitrary: coros)
  case Nil
  then show ?case by simp
next
  case (Cons x cs)
  obtain n c where x: "x = (n, c)" by (cases x)
  let ?call = "\<lparr>ca_device = c, ca_mock = (if truthy mock then sub n else MBool False),
                ca_timeout = timeout, ca_force_reconnect = force\<rparr>"
  have fresh: "n \<notin> fst ` set coros" using Cons.prems(2) x by auto
  have cm: "(if truthy mock then getattr mock n else Inr mock) =
        Inr (if truthy mock then sub n else MBool False)"
    using Cons.prems(3) falsy_mock [of mock] x by auto
  have d: "distinct (map fst cs)" using Cons.prems(1) by simp
  have disj: "fst ` set cs \<inter> fst ` set (coros @ [(n, ?call)]) = {}"
    using Cons.prems(1,2) x by auto
  have g: "\<forall>n c. (n, c) \<in> set cs \<and> truthy mock \<longrightarrow> getattr mock n = Inr (sub n)"
    using Cons.prems(3) by auto
  have ih: "connect_coros getattr mock timeout force cs (coros @ [(n, ?call)]) =
     Inr ((coros @ [(n, ?call)]) @ map (\<lambda>(n, c). (n, \<lparr>ca_device = c,
                ca_mock = (if truthy mock then sub n else MBool False),
                ca_timeout = timeout, ca_force_reconnect = force\<rparr>)) cs)"
    by (rule Cons.IH [OF d disj g])
  show ?case
    using ih cm by (simp add: x dict_set_fresh [OF fresh])
qed

subsection \<open>The example store\<close>

lemma ex_heap_simps:
  "ex_heap 0 = Some (mk_device [(''_name'', VStr ''''), (''log'', VLog ''''),
                    (''a'', VDev 1), (''_b_'', VDev 2), (''c'', VDev 3)])"
  "ex_heap 1 = Some (mk_device [(''_name'', VStr ''''), (''log'', VLog ''''), (''parent'', VDev 0)])"
  "ex_heap 3 = Some (mk_vector [(''_name'', VStr ''''), (''log'', VLog ''''), (''parent'', VDev 0)]
             [(KInt 0, 4), (KInt 1, 5)])"
  "ex_heap 6 = Some (mk_device [(''_name'', VStr ''''), (''log'', VLog '''')])"
  "ex_heap 7 = Some (mk_device [(''_name'', VStr ''''), (''log'', VLog '''')])"
  by (simp_all add: ex_heap_def)

lemma children_ex_heap_0: "children ex_heap 0 = [(''a'', 1), (''_b_'', 2), (''c'', 3)]"
  by (simp add: children_def ex_heap_simps mk_device_def)

lemma ex_tree_ok:
  "device_tree ex_heap ex_tree" "distinct (addrs ex_tree)" "tree_depth ex_tree \<le> 3"
  by (simp_all add: ex_tree_def ex_heap_def children_def initialised_def get_attr_def
      mk_device_def mk_vector_def DeviceVector_children_of_def str_int_def is_Device_def)

lemma paths_ex_tree:
  "paths ex_tree = [(0, []), (1, [''a'']), (2, [''_b_'']), (3, [''c'']),
                    (4, [''c'', ''0'']), (5, [''c'', ''1''])]"
  by (simp add: ex_tree_def)

lemma ex_world_6:
  "heap ex_world 6 \<noteq> None"
  "get_attr (heap ex_world) 6 ''_connect_task'' = VNone"
  "get_attr (heap ex_world) 6 ''_connect_mock_arg'' = VNone"
  "started ex_world = []"
  by (simp_all add: ex_world_def ex_heap_simps get_attr_def mk_device_def class_default_def)

lemma ex_connect1:
  "connect 0 ex_world 6 (MBool False) 10 False = (Inr 0, ex_world1)"
proof -
  have nr: "\<not> reusable ex_world 6 (truthy (MBool False))"
    by (simp add: reusable_def ex_world_6)
  have nc: "can_use_previous_connect ex_world 6 (truthy (MBool False)) \<noteq> Inl CancelledError"
    by (simp add: can_use_previous_connect_def ex_world_6)
  from connect_start [OF ex_world_6(1) _ nc, of False 0 10] nr
  show ?thesis by (simp add: ex_world1_def ex_world_6)
qed

lemma started_ex_world1: "started ex_world1 = [connect_call 0 6 (MBool False) 10 False]"
  using ex_connect1 by (simp add: ex_world1_def snd_connect can_use_previous_connect_def ex_world_6
      started_start_connect connect_call_def)

lemma ex_world1_6:
  "get_attr (heap ex_world1) 6 ''_connect_task'' = VTask 0"
  "get_attr (heap ex_world1) 6 ''_connect_mock_arg'' = VBool False"
  "heap ex_world1 6 \<noteq> None"
  using connect_post [OF ex_world_6(1) ex_connect1] by simp_all

section \<open>The claims\<close>

text \<open>
  Claim C1. After a first \<^verbatim>\<open>connect\<close> whose task did not finish with a failure, a
  second call in the same mode without \<^verbatim>\<open>force_reconnect\<close> starts no fan-out, and a
  later call with \<^verbatim>\<open>force_reconnect=True\<close> starts the fan-out again. The first part
  holds, and so does the second unless the task has been cancelled in between (lemma
  \<open>connect_twice_then_force_unless_cancelled\<close>). On a cancelled task the code breaks
  the claim. Device 6 of the example is connected in real mode; its task is pending, and
  a second call in real mode awaits it and changes nothing. The task is then cancelled,
  as it is when the callers awaiting it are. The third call, in real mode with
  \<^verbatim>\<open>force_reconnect=True\<close>, raises \<^verbatim>\<open>CancelledError\<close> from
  \<^verbatim>\<open>self._connect_task.exception()\<close> before it reads \<^verbatim>\<open>force_reconnect\<close>:
  it starts no fan-out, and the fan-out of the first call is still the only one.
\<close>

theorem connect_force_after_cancel_raises:
  "connect 0 ex_world 6 (MBool False) 10 False = (Inr 0, ex_world1)
   \<and> task_state ex_world1 0 = Pending
   \<and> connect 1 ex_world1 6 (MBool False) 10 False = (Inr 0, ex_world1)
   \<and> connect 2 (ex_world1\<lparr>task_state := (task_state ex_world1)(0 := Cancelled)\<rparr>) 6
         (MBool False) 10 True
       = (Inl CancelledError, ex_world1\<lparr>task_state := (task_state ex_world1)(0 := Cancelled)\<rparr>)
   \<and> started (snd (connect 2 (ex_world1\<lparr>task_state := (task_state ex_world1)(0 := Cancelled)\<rparr>) 6
         (MBool False) 10 True))
       = [connect_call 0 6 (MBool False) 10 False]"
proof -
  have p: "task_state ex_world1 0 = Pending"
    by (simp add: ex_world1_def snd_connect can_use_previous_connect_def ex_world_6
        start_connect_def Let_def)
  have r: "reusable ex_world1 6 (truthy (MBool False))"
    using ex_world1_6 p by (simp add: reusable_def task_done_def)
  have 2: "connect 1 ex_world1 6 (MBool False) 10 False = (Inr 0, ex_world1)"
    using connect_reuse [OF r ex_world1_6(1), of 1 10] p by simp
  let ?w = "ex_world1\<lparr>task_state := (task_state ex_world1)(0 := Cancelled)\<rparr>"
  have 3: "connect 2 ?w 6 (MBool False) 10 True = (Inl CancelledError, ?w)"
    using connect_cancelled [of ?w 6 "MBool False" 0 2 10 True] ex_world1_6 by simp
  show ?thesis
    using ex_connect1 p 2 3 started_ex_world1 by simp
qed

text \<open>
  Claim C2. After a \<^verbatim>\<open>connect\<close> in one mode, a \<^verbatim>\<open>connect\<close> in the other mode (mock
  after real, or real after mock) starts a new fan-out and awaits the task made for it,
  which is not the task of the earlier call, whatever has become of that task (\<open>ts\<close>) and
  whatever \<^verbatim>\<open>force_reconnect\<close> is.
\<close>

theorem connect_other_mode_starts_afresh:
  assumes "heap w0 self \<noteq> None"
    and "task_known w0 self"
    and "connect nm1 w0 self m1 t1 f1 = (Inr tk, w1)"
    and "truthy m2 \<noteq> truthy m1"
  shows "fst (connect nm2 (w1\<lparr>task_state := ts\<rparr>) self m2 t2 f2) = Inr (length (started w1))
       \<and> length (started w1) \<noteq> tk
       \<and> started (snd (connect nm2 (w1\<lparr>task_state := ts\<rparr>) self m2 t2 f2)) =
            started w1 @ [connect_call nm2 self m2 t2 f2]"
proof -
  note post = connect_post [OF assms(1,3)]
  let ?w = "w1\<lparr>task_state := ts\<rparr>"
  have h: "heap ?w self \<noteq> None" using post by simp
  have nr: "\<not> reusable ?w self (truthy m2)"
    using post assms(4) by (auto simp: reusable_def)
  have nc: "can_use_previous_connect ?w self (truthy m2) \<noteq> Inl CancelledError"
    using post assms(4) by (auto simp: can_use_cases)
  have 1: "connect nm2 ?w self m2 t2 f2 =
     (Inr (length (started ?w)),
      start_connect ?w self (truthy m2) (if m2 = MBool True then MMock nm2 else m2) t2 f2)"
    using connect_start [OF h _ nc, of f2 nm2 t2] nr by simp
  have 2: "tk < length (started w1)"
  proof (cases "can_use_previous_connect w0 self (truthy m1)")
    case (Inl e)
    with assms(3) show ?thesis by (simp add: connect_def)
  next
    case (Inr b)
    show ?thesis
    proof (cases "f1 \<or> \<not> b")
      case True
      with Inr assms(1,3) show ?thesis
        by (auto simp: connect_def task_start_connect started_start_connect)
    next
      case False
      with Inr assms(2,3) show ?thesis
        by (auto simp: connect_def task_known_def split: pyval.splits)
    qed
  qed
  show ?thesis using 1 2 by (simp add: started_start_connect connect_call_def)
qed

theorem connect_other_mode_starts_afresh_witness:
  "heap ex_world 6 \<noteq> None \<and> task_known ex_world 6
   \<and> connect 0 ex_world 6 (MBool False) 10 False = (Inr 0, ex_world1)
   \<and> truthy (MBool True :: nat mock_arg) \<noteq> truthy (MBool False :: nat mock_arg)
   \<and> fst (connect 1 (ex_world1\<lparr>task_state := (\<lambda>t. Finished)\<rparr>) 6 (MBool True) 10 False) = Inr 1
   \<and> started (snd (connect 1 (ex_world1\<lparr>task_state := (\<lambda>t. Finished)\<rparr>) 6 (MBool True) 10 False))
        = [connect_call 0 6 (MBool False) 10 False, connect_call 1 6 (MBool True) 10 False]
   \<and> ca_mock (connect_call 1 6 (MBool True) 10 False :: (nat, nat) connect_args) = MMock 1"
proof -
  have k: "task_known ex_world 6" by (simp add: task_known_def ex_world_6)
  have m: "truthy (MBool True :: nat mock_arg) \<noteq> truthy (MBool False :: nat mock_arg)" by simp
  show ?thesis
    using connect_other_mode_starts_afresh [OF ex_world_6(1) k ex_connect1 m, of 1 "\<lambda>t. Finished" 10 False]
      ex_world_6 ex_connect1 k started_ex_world1
    by (simp add: connect_call_def)
qed

text \<open>
  Claim C3, as amended. \<^verbatim>\<open>set_name("X")\<close> on the root of a tree of devices returns
  (given the recursion depth of the tree) and sets the name of every descendant to
  \<^verbatim>\<open>X\<close> followed by the names on the path from the root, each stripped of its
  leading and trailing underscores and each preceded by \<^verbatim>\<open>-\<close>;
  \<^verbatim>\<open>set_name("")\<close> sets every name to the empty string. The claim as given strips
  the leading underscores only, which the code does not do: see the counterexample.
\<close>

theorem set_name_names_every_descendant:
  assumes "device_tree h t" and "distinct (addrs t)" and "tree_depth t \<le> depth"
  shows "\<exists>h'. set_name depth h (addr_of t) X = Some h'
            \<and> (\<forall>(d, p) \<in> set (paths t). Device_name h' d = path_name X p)"
  using set_name_tree [OF assms, of X] by (auto simp: names_set_def foldl_child_full_name)

theorem set_name_names_every_descendant_witness:
  "device_tree ex_heap ex_tree \<and> distinct (addrs ex_tree) \<and> tree_depth ex_tree \<le> 3
   \<and> map_option (\<lambda>h. map (Device_name h) [0, 1, 2, 3, 4, 5]) (set_name 3 ex_heap 0 ''p'')
       = Some [''p'', ''p-a'', ''p-b'', ''p-c'', ''p-c-0'', ''p-c-1'']
   \<and> map_option (\<lambda>h. map (Device_name h) [0, 1, 2, 3, 4, 5]) (set_name 3 ex_heap 0 [])
       = Some [[], [], [], [], [], []]"
proof -
  from set_name_names_every_descendant [OF ex_tree_ok, of "''p''"]
  have 1: "map_option (\<lambda>h. map (Device_name h) [0, 1, 2, 3, 4, 5]) (set_name 3 ex_heap 0 ''p'')
       = Some [''p'', ''p-a'', ''p-b'', ''p-c'', ''p-c-0'', ''p-c-1'']"
    by (auto simp: paths_ex_tree path_name_def strip_underscores_def ex_tree_def)
  from set_name_names_every_descendant [OF ex_tree_ok, of "[]"]
  have 2: "map_option (\<lambda>h. map (Device_name h) [0, 1, 2, 3, 4, 5]) (set_name 3 ex_heap 0 [])
       = Some [[], [], [], [], [], []]"
    by (auto simp: paths_ex_tree path_name_def ex_tree_def)
  from 1 2 ex_tree_ok show ?thesis by simp
qed

text \<open>
  The claim C3 as given fails on a child held in an attribute whose name ends in an
  underscore: after \<^verbatim>\<open>set_name("X")\<close> on device 0 of the example, its child
  \<^verbatim>\<open>_b_\<close> is named \<^verbatim>\<open>X-b\<close>, and not \<^verbatim>\<open>X-b_\<close>.
\<close>

theorem set_name_leading_underscores_counterexample:
  "map_option (\<lambda>h. Device_name h 2) (set_name 3 ex_heap 0 ''X'') = Some ''X-b''
   \<and> spec_path_name ''X'' [''_b_''] = ''X-b_''
   \<and> map_option (\<lambda>h. Device_name h 2) (set_name 3 ex_heap 0 ''X'')
        \<noteq> Some (spec_path_name ''X'' [''_b_''])"
proof -
  from set_name_tree [OF ex_tree_ok, of "''X''"]
  obtain h' where h': "set_name 3 ex_heap 0 ''X'' = Some h'" "names_set ex_tree ''X'' h'"
    by (auto simp: ex_tree_def)
  from h'(2) have n: "Device_name h' 2 = ''X-b''"
    by (simp add: names_set_def paths_ex_tree foldl_child_full_name path_name_def
        strip_underscores_def)
  have s: "spec_path_name ''X'' [''_b_''] = ''X-b_''"
    by (simp add: spec_path_name_def)
  show ?thesis by (simp add: h'(1) n s)
qed

text \<open>
  Claim C4. Whenever \<^verbatim>\<open>connect\<close> arrives at a value for
  \<^verbatim>\<open>can_use_previous_connect\<close>, that value is the rule of the specification: the
  requested mode is the stored one, a previous task exists, and the task is not both
  done and holding an exception. The only case where it does not arrive at a value is
  a cancelled task in the same mode, where \<^verbatim>\<open>exception()\<close> raises
  \<^verbatim>\<open>CancelledError\<close>; the rule holds of that task too, and nothing is started (lemma
  \<open>connect_cancelled\<close>). So a call without \<^verbatim>\<open>force_reconnect\<close> starts a new
  fan-out exactly when the rule fails. In particular a task that finished with a result
  and a task still pending are reused: the call awaits that task and changes nothing.
  A task that finished with an exception is not: the call in the same mode starts a new
  fan-out and awaits the new task.
\<close>

theorem connect_reuse_decision:
  "(\<forall>b. can_use_previous_connect w self uses_mock = Inr b \<longrightarrow> b = reusable w self uses_mock)
   \<and> (\<forall>x. can_use_previous_connect w self uses_mock = Inl x \<longrightarrow>
          x = CancelledError \<and> reusable w self uses_mock)
   \<and> started (snd (connect nm w self mock timeout False)) =
       (if reusable w self (truthy mock) then started w
        else started w @ [connect_call nm self mock timeout False])
   \<and> (get_attr (heap w) self ''_connect_mock_arg'' = VBool (truthy mock)
        \<and> get_attr (heap w) self ''_connect_task'' = VTask t \<longrightarrow>
        (task_state w t = Finished \<or> task_state w t = Pending \<longrightarrow>
           connect nm w self mock timeout False = (Inr t, w))
      \<and> (task_state w t = Failed e \<and> heap w self \<noteq> None \<longrightarrow>
           fst (connect nm w self mock timeout False) = Inr (length (started w))
         \<and> started (snd (connect nm w self mock timeout False)) =
             started w @ [connect_call nm self mock timeout False]))"
proof -
  have a: "\<forall>b. can_use_previous_connect w self uses_mock = Inr b \<longrightarrow> b = reusable w self uses_mock"
    using can_use_Inr by blast
  have b: "\<forall>x. can_use_previous_connect w self uses_mock = Inl x \<longrightarrow>
          x = CancelledError \<and> reusable w self uses_mock"
    using can_use_Inl by blast
  have c: "task_state w t = Finished \<or> task_state w t = Pending \<longrightarrow>
           connect nm w self mock timeout False = (Inr t, w)"
    if h: "get_attr (heap w) self ''_connect_mock_arg'' = VBool (truthy mock)"
      "get_attr (heap w) self ''_connect_task'' = VTask t"
  proof
    assume st: "task_state w t = Finished \<or> task_state w t = Pending"
    with h have r: "reusable w self (truthy mock)"
      by (auto simp: reusable_def task_done_def holds_exception_def)
    from st have "task_state w t \<noteq> Cancelled" by auto
    with connect_reuse [OF r h(2)] show "connect nm w self mock timeout False = (Inr t, w)" .
  qed
  have d: "task_state w t = Failed e \<and> heap w self \<noteq> None \<longrightarrow>
           fst (connect nm w self mock timeout False) = Inr (length (started w))
         \<and> started (snd (connect nm w self mock timeout False)) =
             started w @ [connect_call nm self mock timeout False]"
    if h: "get_attr (heap w) self ''_connect_mock_arg'' = VBool (truthy mock)"
      "get_attr (heap w) self ''_connect_task'' = VTask t"
  proof (intro impI, elim conjE)
    assume k: "task_state w t = Failed e" "heap w self \<noteq> None"
    with h have nr: "\<not> reusable w self (truthy mock)"
      by (simp add: reusable_def task_done_def holds_exception_def)
    have nc: "can_use_previous_connect w self (truthy mock) \<noteq> Inl CancelledError"
      using h k by (simp add: can_use_cases)
    show "fst (connect nm w self mock timeout False) = Inr (length (started w))
         \<and> started (snd (connect nm w self mock timeout False)) =
             started w @ [connect_call nm self mock timeout False]"
      using connect_start [OF k(2) _ nc, of False nm timeout] nr
      by (simp add: started_start_connect connect_call_def)
  qed
  show ?thesis
  proof (intro conjI impI)
    show "\<forall>b. can_use_previous_connect w self uses_mock = Inr b \<longrightarrow> b = reusable w self uses_mock"
      by (rule a)
    show "\<forall>x. can_use_previous_connect w self uses_mock = Inl x \<longrightarrow>
          x = CancelledError \<and> reusable w self uses_mock"
      by (rule b)
    show "started (snd (connect nm w self mock timeout False)) =
       (if reusable w self (truthy mock) then started w
        else started w @ [connect_call nm self mock timeout False])"
      by (rule started_connect_no_force)
  next
    assume h: "get_attr (heap w) self ''_connect_mock_arg'' = VBool (truthy mock)
        \<and> get_attr (heap w) self ''_connect_task'' = VTask t"
      and st: "task_state w t = Finished \<or> task_state w t = Pending"
    from c h st show "connect nm w self mock timeout False = (Inr t, w)" by blast
  next
    assume h: "get_attr (heap w) self ''_connect_mock_arg'' = VBool (truthy mock)
        \<and> get_attr (heap w) self ''_connect_task'' = VTask t"
      and st: "task_state w t = Failed e \<and> heap w self \<noteq> None"
    from d h st show "fst (connect nm w self mock timeout False) = Inr (length (started w))"
      by blast
  next
    assume h: "get_attr (heap w) self ''_connect_mock_arg'' = VBool (truthy mock)
        \<and> get_attr (heap w) self ''_connect_task'' = VTask t"
      and st: "task_state w t = Failed e \<and> heap w self \<noteq> None"
    from d h st show "started (snd (connect nm w self mock timeout False)) =
             started w @ [connect_call nm self mock timeout False]"
      by blast
  qed
qed

theorem connect_reuse_decision_witness:
  "get_attr (heap ex_world1) 6 ''_connect_mock_arg'' = VBool (truthy (MBool False :: nat mock_arg))
   \<and> get_attr (heap ex_world1) 6 ''_connect_task'' = VTask 0
   \<and> task_state (ex_world1\<lparr>task_state := (\<lambda>t. Finished)\<rparr>) 0 = Finished
   \<and> connect 1 (ex_world1\<lparr>task_state := (\<lambda>t. Finished)\<rparr>) 6 (MBool False) 10 False
        = (Inr 0, ex_world1\<lparr>task_state := (\<lambda>t. Finished)\<rparr>)
   \<and> task_state (ex_world1\<lparr>task_state := (\<lambda>t. Failed TypeError)\<rparr>) 0 = Failed TypeError
   \<and> heap ex_world1 6 \<noteq> None
   \<and> \<not> reusable (ex_world1\<lparr>task_state := (\<lambda>t. Failed TypeError)\<rparr>) 6 False
   \<and> fst (connect 1 (ex_world1\<lparr>task_state := (\<lambda>t. Failed TypeError)\<rparr>) 6 (MBool False) 10 False)
        = Inr 1
   \<and> started (snd (connect 1 (ex_world1\<lparr>task_state := (\<lambda>t. Failed TypeError)\<rparr>) 6 (MBool False) 10 False))
        = [connect_call 0 6 (MBool False) 10 False, connect_call 1 6 (MBool False) 10 False]
   \<and> can_use_previous_connect (ex_world1\<lparr>task_state := (\<lambda>t. Cancelled)\<rparr>) 6 False = Inl CancelledError
   \<and> reusable (ex_world1\<lparr>task_state := (\<lambda>t. Cancelled)\<rparr>) 6 False"
proof -
  have h: "heap ex_world1 6 \<noteq> None"
    using connect_post [OF ex_world_6(1) ex_connect1] by simp
  have c: "can_use_previous_connect (ex_world1\<lparr>task_state := (\<lambda>t. Cancelled)\<rparr>) 6 False = Inl CancelledError"
    by (simp add: can_use_previous_connect_def ex_world1_6 task_done_def)
  show ?thesis
    using h c ex_world1_6 started_ex_world1
      connect_reuse_decision [of "ex_world1\<lparr>task_state := (\<lambda>t. Finished)\<rparr>" 6 False 1 "MBool False" 10 0 TypeError]
      connect_reuse_decision [of "ex_world1\<lparr>task_state := (\<lambda>t. Failed TypeError)\<rparr>" 6 False 1 "MBool False" 10 0 TypeError]
      connect_reuse_decision [of "ex_world1\<lparr>task_state := (\<lambda>t. Cancelled)\<rparr>" 6 False 1 "MBool False" 10 0 TypeError]
    by (simp add: reusable_def task_done_def holds_exception_def)
qed

text \<open>
  Claim C5. Let the device \<open>c\<close> be bound to a parent \<open>q\<close>. Assigning \<open>c\<close> to an
  attribute (any but \<^verbatim>\<open>parent\<close> itself) of another device \<open>p\<close> raises the
  configuration error of \<^verbatim>\<open>Device.__setattr__\<close>, which the code raises as a
  \<^verbatim>\<open>TypeError\<close> (``it is already a child of''), and changes nothing: the parent of
  \<open>c\<close> is still \<open>q\<close>, and \<open>p\<close> has not got the attribute. Assigning \<open>c\<close> again under
  its own parent, or assigning a device that has no parent, returns without an error;
  afterwards the parent of \<open>c\<close> is \<open>p\<close> and the attribute of \<open>p\<close> is \<open>c\<close>. Here \<open>p\<close> is
  a plain \<^verbatim>\<open>Device\<close>, whose \<^verbatim>\<open>__setattr__\<close> this is; a \<^verbatim>\<open>DeviceVector\<close>
  refuses every such assignment (claim C8).
\<close>

theorem Device_setattr_reparent:
  assumes "\<not> is_vector h p" and "attr_name \<noteq> ''parent''" and "h p \<noteq> None" and "h c \<noteq> None"
  shows "(get_attr h c ''parent'' = VDev q \<and> q \<noteq> p \<longrightarrow>
            py_setattr mapping_eq h p attr_name (VDev c) = (Raised TypeError, h))
       \<and> (get_attr h c ''parent'' = VDev p \<or> get_attr h c ''parent'' = VNone \<longrightarrow>
            fst (py_setattr mapping_eq h p attr_name (VDev c)) = Returned
          \<and> get_attr (snd (py_setattr mapping_eq h p attr_name (VDev c))) c ''parent'' = VDev p
          \<and> get_attr (snd (py_setattr mapping_eq h p attr_name (VDev c))) p attr_name = VDev c)"
  using assms
  by (auto simp add: py_setattr_def Device_setattr_def Device_setattr_parent_def py_in_def
      py_eq_def num_value_def get_attr_object_setattr)

theorem Device_setattr_reparent_witness:
  "\<not> is_vector ex_heap 7 \<and> ''x'' \<noteq> ''parent'' \<and> ex_heap 7 \<noteq> None \<and> ex_heap 1 \<noteq> None
   \<and> ex_heap 6 \<noteq> None \<and> \<not> is_vector ex_heap 0 \<and> ex_heap 0 \<noteq> None
   \<and> get_attr ex_heap 1 ''parent'' = VDev 0 \<and> (0::nat) \<noteq> 7
   \<and> py_setattr (\<lambda>_ _ _. False) ex_heap 7 ''x'' (VDev 1) = (Raised TypeError, ex_heap)
   \<and> get_attr ex_heap 6 ''parent'' = VNone
   \<and> fst (py_setattr (\<lambda>_ _ _. False) ex_heap 7 ''x'' (VDev 6)) = Returned
   \<and> get_attr (snd (py_setattr (\<lambda>_ _ _. False) ex_heap 7 ''x'' (VDev 6))) 6 ''parent'' = VDev 7
   \<and> get_attr (snd (py_setattr (\<lambda>_ _ _. False) ex_heap 7 ''x'' (VDev 6))) 7 ''x'' = VDev 6
   \<and> fst (py_setattr (\<lambda>_ _ _. False) ex_heap 0 ''a'' (VDev 1)) = Returned
   \<and> get_attr (snd (py_setattr (\<lambda>_ _ _. False) ex_heap 0 ''a'' (VDev 1))) 1 ''parent'' = VDev 0"
proof -
  have h: "\<not> is_vector ex_heap 7" "''x'' \<noteq> ''parent''" "ex_heap 7 \<noteq> None" "ex_heap 1 \<noteq> None"
    "ex_heap 6 \<noteq> None" "\<not> is_vector ex_heap 0" "ex_heap 0 \<noteq> None" "''a'' \<noteq> ''parent''"
    by (simp_all add: ex_heap_def is_vector_def mk_device_def)
  have p: "get_attr ex_heap 1 ''parent'' = VDev 0" "get_attr ex_heap 6 ''parent'' = VNone"
    by (simp_all add: ex_heap_def get_attr_def mk_device_def class_default_def)
  show ?thesis
    using h p
      Device_setattr_reparent [OF h(1) h(2) h(3) h(4), of 0 "\<lambda>_ _ _. False"]
      Device_setattr_reparent [OF h(1) h(2) h(3) h(5), of 0 "\<lambda>_ _ _. False"]
      Device_setattr_reparent [OF h(6) h(8) h(7) h(4), of 0 "\<lambda>_ _ _. False"]
    by simp
qed

text \<open>
  Claim C6. The fan-out of \<^verbatim>\<open>DeviceConnector.connect\<close> hands
  \<^verbatim>\<open>wait_for_connection\<close> exactly one call of \<^verbatim>\<open>connect\<close> for every entry of
  \<^verbatim>\<open>device.children()\<close>, under the entry's name and in the order of the entries. Every
  call has the timeout and the \<^verbatim>\<open>force_reconnect\<close> of the fan-out. Its mock argument
  is \<^verbatim>\<open>False\<close> when the mock argument of the fan-out is falsy, and
  \<^verbatim>\<open>getattr(mock, name)\<close>, the sub-mock of the parent's mock for that child,
  otherwise. The names that \<^verbatim>\<open>children()\<close> yields are distinct, as the keys of a
  Python dict are, and \<^verbatim>\<open>getattr\<close> answers for every child.
\<close>

theorem DeviceConnector_connect_fans_out:
  assumes "distinct (map fst (children h dev))"
    and "\<forall>n c. (n, c) \<in> set (children h dev) \<and> truthy mock \<longrightarrow> getattr mock n = Inr (sub n)"
  shows "DeviceConnector_connect getattr wait_for_connection h dev mock timeout force =
     Inr (wait_for_connection
            (map (\<lambda>(n, c). (n, \<lparr>ca_device = c,
                     ca_mock = (if truthy mock then sub n else MBool False),
                     ca_timeout = timeout, ca_force_reconnect = force\<rparr>))
               (children h dev)))"
proof -
  have e: "fst ` set (children h dev) \<inter> fst ` set ([] :: (string \<times> ('a, 'c) connect_args) list) = {}"
    by simp
  show ?thesis
    using connect_coros_distinct [where getattr = getattr and mock = mock and sub = sub
        and timeout = timeout and force = force, OF assms(1) e assms(2)]
    by (simp add: DeviceConnector_connect_def)
qed

theorem DeviceConnector_connect_fans_out_witness:
  "distinct (map fst (children ex_heap 0))
   \<and> DeviceConnector_connect (\<lambda>m n. Inr (MMock (length n))) id ex_heap 0 (MMock (0::nat)) (10::nat) True =
       Inr [(''a'', \<lparr>ca_device = 1, ca_mock = MMock 1, ca_timeout = 10, ca_force_reconnect = True\<rparr>),
            (''_b_'', \<lparr>ca_device = 2, ca_mock = MMock 3, ca_timeout = 10, ca_force_reconnect = True\<rparr>),
            (''c'', \<lparr>ca_device = 3, ca_mock = MMock 1, ca_timeout = 10, ca_force_reconnect = True\<rparr>)]
   \<and> DeviceConnector_connect (\<lambda>m n. Inr (MMock (length n))) id ex_heap 0 (MBool False) (10::nat) False =
       Inr [(''a'', \<lparr>ca_device = 1, ca_mock = MBool False, ca_timeout = 10, ca_force_reconnect = False\<rparr>),
            (''_b_'', \<lparr>ca_device = 2, ca_mock = MBool False, ca_timeout = 10, ca_force_reconnect = False\<rparr>),
            (''c'', \<lparr>ca_device = 3, ca_mock = MBool False, ca_timeout = 10, ca_force_reconnect = False\<rparr>)]"
proof -
  have d: "distinct (map fst (children ex_heap 0))" by (simp add: children_ex_heap_0)
  have g: "\<forall>n c. (n, c) \<in> set (children ex_heap 0) \<and> truthy (MMock (0::nat)) \<longrightarrow>
      (\<lambda>m n. Inr (MMock (length n))) (MMock (0::nat)) n = (Inr (MMock (length n)) :: error + nat mock_arg)"
    by simp
  have g': "\<forall>n c. (n, c) \<in> set (children ex_heap 0) \<and> truthy (MBool False :: nat mock_arg) \<longrightarrow>
      (\<lambda>m n. Inr (MMock (length n))) (MBool False :: nat mock_arg) n
        = (Inr (MMock (length n)) :: error + nat mock_arg)"
    by simp
  show ?thesis
    using d
      DeviceConnector_connect_fans_out [where getattr = "\<lambda>m n. Inr (MMock (length n))"
        and mock = "MMock (0::nat)" and sub = "\<lambda>n. MMock (length n)" and timeout = "10::nat"
        and force = True and wait_for_connection = id, OF d g]
      DeviceConnector_connect_fans_out [where getattr = "\<lambda>m n. Inr (MMock (length n))"
        and mock = "MBool False :: nat mock_arg" and sub = "\<lambda>n. MMock (length n)"
        and timeout = "10::nat" and force = False and wait_for_connection = id, OF d g']
    by (simp add: children_ex_heap_0)
qed

text \<open>
  Claim C7, as amended. \<^verbatim>\<open>DeviceVector.__setitem__(key, value)\<close> with a key that is
  not an \<^verbatim>\<open>int\<close>, or with a value that is not a \<^verbatim>\<open>Device\<close>, fails with an
  \<^verbatim>\<open>AssertionError\<close> before it changes anything. With an \<^verbatim>\<open>int\<close> key and a
  device that has no parent, or whose parent is this collection already, it returns,
  the mapping holds the device under the key, and the parent of the device is the
  collection. The claim as given names a \<^verbatim>\<open>TypeError\<close> for the first case and
  promises the second for every device: see the counterexample.
\<close>

theorem DeviceVector_setitem_checked:
  "(as_key key = None \<or> \<not> is_Device val \<longrightarrow>
      DeviceVector_setitem mapping_eq h self key val = (Raised AssertionError, h))
   \<and> (as_key key = Some k \<and> val = VDev c \<and> h self \<noteq> None \<and> h c \<noteq> None
        \<and> (get_attr h c ''parent'' = VNone \<or> get_attr h c ''parent'' = VDev self) \<longrightarrow>
      fst (DeviceVector_setitem mapping_eq h self key val) = Returned
      \<and> item_get (vector_items (snd (DeviceVector_setitem mapping_eq h self key val)) self) k = Some c
      \<and> get_attr (snd (DeviceVector_setitem mapping_eq h self key val)) c ''parent'' = VDev self)"
  by (auto simp: DeviceVector_setitem_def is_Device_def Device_setattr_parent_def py_in_def py_eq_def
      num_value_def
      get_attr_object_setattr vector_items_children_setitem item_get_item_set
      split: option.splits pyval.splits)

theorem DeviceVector_setitem_checked_witness:
  "as_key (VStr ''k'') = None
   \<and> DeviceVector_setitem (\<lambda>_ _ _. False) ex_heap 3 (VStr ''k'') (VDev 6) = (Raised AssertionError, ex_heap)
   \<and> \<not> is_Device (VInt 7)
   \<and> DeviceVector_setitem (\<lambda>_ _ _. False) ex_heap 3 (VInt 2) (VInt 7) = (Raised AssertionError, ex_heap)
   \<and> as_key (VInt 2) = Some (KInt 2) \<and> ex_heap 3 \<noteq> None \<and> ex_heap 6 \<noteq> None
   \<and> get_attr ex_heap 6 ''parent'' = VNone
   \<and> fst (DeviceVector_setitem (\<lambda>_ _ _. False) ex_heap 3 (VInt 2) (VDev 6)) = Returned
   \<and> item_get (vector_items (snd (DeviceVector_setitem (\<lambda>_ _ _. False) ex_heap 3 (VInt 2) (VDev 6))) 3)
         (KInt 2) = Some 6
   \<and> get_attr (snd (DeviceVector_setitem (\<lambda>_ _ _. False) ex_heap 3 (VInt 2) (VDev 6))) 6 ''parent''
         = VDev 3"
proof -
  have h: "as_key (VStr ''k'') = None" "\<not> is_Device (VInt 7)" "as_key (VInt 2) = Some (KInt 2)"
    "ex_heap 3 \<noteq> None" "ex_heap 6 \<noteq> None" "get_attr ex_heap 6 ''parent'' = VNone"
    by (simp_all add: as_key_def is_Device_def ex_heap_simps get_attr_def mk_device_def class_default_def)
  show ?thesis
    using h
      DeviceVector_setitem_checked [of "VStr ''k''" "VDev 6" "\<lambda>_ _ _. False" ex_heap 3 "KInt 2" 6]
      DeviceVector_setitem_checked [of "VInt 2" "VInt 7" "\<lambda>_ _ _. False" ex_heap 3 "KInt 2" 6]
      DeviceVector_setitem_checked [of "VInt 2" "VDev 6" "\<lambda>_ _ _. False" ex_heap 3 "KInt 2" 6]
    by simp
qed

text \<open>
  The claim C7 as given fails in both halves. Device 1 of the example is a child of
  device 0. \<^verbatim>\<open>c[2] = a\<close> on the collection 3 raises the \<^verbatim>\<open>TypeError\<close> of the
  guard against a second parent: the call does not return, the parent of device 1 is
  still device 0 and not the collection, and the mapping already holds the new entry.
  And a key that is a string fails with \<^verbatim>\<open>AssertionError\<close>, which is not a
  \<^verbatim>\<open>TypeError\<close>.
\<close>

theorem DeviceVector_setitem_counterexample:
  "fst (DeviceVector_setitem (\<lambda>_ _ _. False) ex_heap 3 (VInt 2) (VDev 1)) = Raised TypeError
   \<and> get_attr (snd (DeviceVector_setitem (\<lambda>_ _ _. False) ex_heap 3 (VInt 2) (VDev 1))) 1 ''parent''
       = VDev 0
   \<and> get_attr (snd (DeviceVector_setitem (\<lambda>_ _ _. False) ex_heap 3 (VInt 2) (VDev 1))) 1 ''parent''
       \<noteq> VDev 3
   \<and> vector_items ex_heap 3 = [(KInt 0, 4), (KInt 1, 5)]
   \<and> vector_items (snd (DeviceVector_setitem (\<lambda>_ _ _. False) ex_heap 3 (VInt 2) (VDev 1))) 3
       = [(KInt 0, 4), (KInt 1, 5), (KInt 2, 1)]
   \<and> DeviceVector_setitem (\<lambda>_ _ _. False) ex_heap 3 (VStr ''k'') (VDev 6) = (Raised AssertionError, ex_heap)
   \<and> AssertionError \<noteq> TypeError"
  by (simp add: DeviceVector_setitem_def as_key_def Device_setattr_parent_def py_in_def py_eq_def
      num_value_def
      get_attr_def ex_heap_def children_setitem_def vector_items_def mk_device_def mk_vector_def
      class_default_def is_vector_def)

text \<open>
  Claim C8. Assigning a device to an attribute of a \<^verbatim>\<open>DeviceVector\<close>, under any name
  but \<^verbatim>\<open>parent\<close>, raises an \<^verbatim>\<open>AttributeError\<close> whose message sends the caller to
  \<^verbatim>\<open>device_vector[i] = child\<close>; nothing is written, and the mapping of the collection
  is what it was.
\<close>

theorem DeviceVector_setattr_rejects_devices:
  assumes "is_vector h self" and "attr_name \<noteq> ''parent''"
  shows "py_setattr mapping_eq h self attr_name (VDev c) =
           (Raised (AttributeError
              ''DeviceVector can only have integer named children, set via device_vector[i] = child''), h)
       \<and> vector_items (snd (py_setattr mapping_eq h self attr_name (VDev c))) self = vector_items h self"
  using assms by (simp add: py_setattr_def DeviceVector_setattr_def is_Device_def)

theorem DeviceVector_setattr_rejects_devices_witness:
  "is_vector ex_heap 3 \<and> ''x'' \<noteq> ''parent''
   \<and> py_setattr (\<lambda>_ _ _. False) ex_heap 3 ''x'' (VDev 6) =
           (Raised (AttributeError
              ''DeviceVector can only have integer named children, set via device_vector[i] = child''), ex_heap)
   \<and> vector_items (snd (py_setattr (\<lambda>_ _ _. False) ex_heap 3 ''x'' (VDev 6))) 3 = [(KInt 0, 4), (KInt 1, 5)]"
proof -
  have h: "is_vector ex_heap 3" "''x'' \<noteq> ''parent''"
    by (simp_all add: ex_heap_def is_vector_def mk_vector_def)
  have v: "vector_items ex_heap 3 = [(KInt 0, 4), (KInt 1, 5)]"
    by (simp add: ex_heap_def vector_items_def mk_vector_def)
  show ?thesis
    using h v DeviceVector_setattr_rejects_devices [OF h, of "\<lambda>_ _ _. False" 6] by simp
qed

text \<open>
  Claim C9. When \<^verbatim>\<open>in_bluesky_event_loop()\<close> is true, \<^verbatim>\<open>DeviceCollector.__exit__\<close>
  raises the \<^verbatim>\<open>RuntimeError\<close> ``Cannot use DeviceConnector inside a plan''; the
  collector and everything outside it are as they were, and the hand-off, in which all
  naming and connecting is done, has not been called (the result does not depend on
  it). Otherwise, when the hand-off to the bluesky event loop raises a
  \<^verbatim>\<open>RuntimeError\<close>, as it does when it has no loop to run the coroutine in, the exit
  raises \<^verbatim>\<open>NotConnected\<close> with the message that asks whether the bluesky event loop
  is running and points to the documentation.
\<close>

theorem DeviceCollector_exit_failures:
  "(in_bluesky_event_loop \<longrightarrow>
      DeviceCollector_exit in_bluesky_event_loop caller_locals call_in_bluesky_event_loop self s =
        (Inl (RuntimeError
           (''Cannot use DeviceConnector inside a plan, instead use '' @
            ''`yield from ophyd_async.plan_stubs.ensure_connected(device)`'')), self, s))
   \<and> (\<not> in_bluesky_event_loop
        \<and> fst (call_in_bluesky_event_loop (self\<lparr>dc_objects_on_exit := caller_locals\<rparr>) s) = Inl e
        \<and> is_RuntimeError e \<longrightarrow>
      fst (DeviceCollector_exit in_bluesky_event_loop caller_locals call_in_bluesky_event_loop self s) =
        Inl (NotConnected
           (''Could not connect devices. Is the bluesky event loop running? See '' @
            ''https://blueskyproject.io/ophyd-async/main/'' @
            ''user/explanations/event-loop-choice.html for more info.'')))"
  by (auto simp: DeviceCollector_exit_def Let_def split: prod.splits sum.splits)

theorem DeviceCollector_exit_failures_witness:
  "DeviceCollector_exit True [(''d'', VDev 6)] (\<lambda>c s. (Inr (0::nat), object_setattr s 6 ''_name'' (VStr ''d'')))
       ex_collector ex_heap =
     (Inl (RuntimeError
        (''Cannot use DeviceConnector inside a plan, instead use '' @
         ''`yield from ophyd_async.plan_stubs.ensure_connected(device)`'')), ex_collector, ex_heap)
   \<and> fst ((\<lambda>c s. (Inl (RuntimeError ''no running event loop'') :: error + nat, s))
         (ex_collector\<lparr>dc_objects_on_exit := [(''d'', VDev 6)]\<rparr>) ex_heap)
       = Inl (RuntimeError ''no running event loop'')
   \<and> is_RuntimeError (RuntimeError ''no running event loop'')
   \<and> fst (DeviceCollector_exit False [(''d'', VDev 6)]
            (\<lambda>c s. (Inl (RuntimeError ''no running event loop'') :: error + nat, s))
            ex_collector ex_heap) =
       Inl (NotConnected
          (''Could not connect devices. Is the bluesky event loop running? See '' @
           ''https://blueskyproject.io/ophyd-async/main/'' @
           ''user/explanations/event-loop-choice.html for more info.''))"
proof -
  have r: "is_RuntimeError (RuntimeError ''no running event loop'')"
    by (simp add: is_RuntimeError_def)
  show ?thesis
    using r
      DeviceCollector_exit_failures [of True "[(''d'', VDev 6)]"
        "\<lambda>c s. (Inr (0::nat), object_setattr s 6 ''_name'' (VStr ''d''))" ex_collector ex_heap
        "RuntimeError ''no running event loop''"]
      DeviceCollector_exit_failures [of False "[(''d'', VDev 6)]"
        "\<lambda>c s. (Inl (RuntimeError ''no running event loop'') :: error + nat, s)" ex_collector ex_heap
        "RuntimeError ''no running event loop''"]
    by simp
qed

text \<open>
  Claim C10. \<^verbatim>\<open>children()\<close> of a \<^verbatim>\<open>Device\<close> yields a pair \<open>(n, c)\<close> exactly when
  the instance attribute \<open>n\<close> holds the device \<open>c\<close> and \<open>n\<close> is not \<^verbatim>\<open>parent\<close>; the
  attribute \<^verbatim>\<open>parent\<close> is never yielded. \<^verbatim>\<open>children()\<close> of a \<^verbatim>\<open>DeviceVector\<close>
  yields its keyed children as pairs \<^verbatim>\<open>(str(key), child)\<close>, in order. And what
  \<^verbatim>\<open>children()\<close> yields for any device does not depend on what any \<^verbatim>\<open>parent\<close>
  attribute holds, so the traversals of \<^verbatim>\<open>set_name\<close> and of the connect fan-out,
  which follow \<^verbatim>\<open>children()\<close> only, never go up a parent link.
\<close>

theorem children_never_yield_parent:
  "(h a = Some obj \<and> obj_class obj = CDevice \<longrightarrow>
      (\<forall>n c. (n, c) \<in> set (children h a) \<longleftrightarrow> (n, VDev c) \<in> set (obj_dict obj) \<and> n \<noteq> ''parent'')
      \<and> (\<forall>c. (''parent'', c) \<notin> set (children h a)))
   \<and> (h a = Some obj \<and> obj_class obj = CDeviceVector \<longrightarrow>
      children h a = map (\<lambda>(key, child). (str_key key, child)) (obj_children obj))
   \<and> children (object_setattr h b ''parent'' v) a = children h a"
  by (auto simp: children_def Device_children_of_mem DeviceVector_children_of_def
      children_object_setattr_parent[unfolded children_def])

theorem children_never_yield_parent_witness:
  "ex_heap 1 = Some (mk_device [(''_name'', VStr ''''), (''log'', VLog ''''), (''parent'', VDev 0)])
   \<and> obj_class (mk_device [(''_name'', VStr ''''), (''log'', VLog ''''), (''parent'', VDev 0)]) = CDevice
   \<and> (''parent'', 0) \<notin> set (children ex_heap 1)
   \<and> children ex_heap 0 = [(''a'', 1), (''_b_'', 2), (''c'', 3)]
   \<and> obj_class (mk_vector [(''_name'', VStr ''''), (''log'', VLog ''''), (''parent'', VDev 0)]
             [(KInt 0, 4), (KInt 1, 5)]) = CDeviceVector
   \<and> children ex_heap 3 = [(''0'', 4), (''1'', 5)]
   \<and> children (object_setattr ex_heap 6 ''parent'' (VDev 7)) 6 = []"
proof -
  have c0: "children ex_heap 0 = [(''a'', 1), (''_b_'', 2), (''c'', 3)]"
    by (simp add: children_def ex_heap_simps mk_device_def)
  have c6: "children ex_heap 6 = []"
    by (simp add: children_def ex_heap_simps mk_device_def)
  have k: "obj_class (mk_device [(''_name'', VStr ''''), (''log'', VLog ''''), (''parent'', VDev 0)]) = CDevice"
    "obj_class (mk_vector [(''_name'', VStr ''''), (''log'', VLog ''''), (''parent'', VDev 0)]
             [(KInt 0, 4), (KInt 1, 5)]) = CDeviceVector"
    by (simp_all add: mk_device_def mk_vector_def)
  show ?thesis
    using c0 c6 k ex_heap_simps(2,3)
      children_never_yield_parent [of ex_heap 1
         "mk_device [(''_name'', VStr ''''), (''log'', VLog ''''), (''parent'', VDev 0)]" 6 "VDev 7"]
      children_never_yield_parent [of ex_heap 3
         "mk_vector [(''_name'', VStr ''''), (''log'', VLog ''''), (''parent'', VDev 0)]
             [(KInt 0, 4), (KInt 1, 5)]" 6 "VDev 7"]
      children_never_yield_parent [of ex_heap 6
         "mk_device [(''_name'', VStr ''''), (''log'', VLog '''')]" 6 "VDev 7"]
    by (simp add: mk_vector_def str_int_def)
qed

end
